theory Spec2Isabelle
  imports Complex_Main "HOL-Library.AList"
begin

section \<open>Data model\<close>

text \<open>
  The simulator is JavaScript. A JavaScript Number is modelled as a real, and the values
  NaN and the infinities are outside the model. Outside the position arithmetic of
  \<open>movePlayer\<close> the operations are the exact ones that the IEEE doubles of the program
  approximate. In \<open>movePlayer\<close>, whose result is bounded by a claim that grants no
  tolerance, every operation is rounded to the nearest double (\<open>fl\<close> below). A Number that
  is only ever used as an integer counter or key (\<open>nextSourceId\<close>, a source id) is a
  natural number.
\<close>

text \<open>
  Rounding to the nearest integer, ties to the even one; and rounding of a real to the
  nearest double: 53 significant bits, ties to even, as IEEE 754 prescribes for \<open>+\<close>,
  \<open>-\<close>, \<open>*\<close>, \<open>/\<close> and the square root. The exponent range is not bounded: overflow to an
  infinity and underflow to a subnormal are outside the model.
\<close>

definition rne :: "real \<Rightarrow> int" where
  "rne q =
     (let f = \<lfloor>q\<rfloor>; r = q - of_int f
      in if r < 1 / 2 then f
         else if r > 1 / 2 then f + 1
         else if even f then f else f + 1)"

definition fl :: "real \<Rightarrow> real" where
  "fl v =
     (if v = 0 then 0
      else (let e = \<lfloor>log 2 \<bar>v\<bar>\<rfloor>;
                ulp = 2 powr (of_int e - 52)
            in of_int (rne (v / ulp)) * ulp))"

text \<open>A position object \<open>{x, y, z}\<close>. The fields are named \<open>vec_x\<close>, \<open>vec_y\<close>, \<open>vec_z\<close>
  so that \<open>x\<close>, \<open>y\<close>, \<open>z\<close> stay free for variables.\<close>

record vec3 =
  vec_x :: real
  vec_y :: real
  vec_z :: real

definition vec :: "real \<Rightarrow> real \<Rightarrow> real \<Rightarrow> vec3" where
  "vec a b c = \<lparr>vec_x = a, vec_y = b, vec_z = c\<rparr>"

text \<open>
  The source object built by \<open>createSource\<close> (audio-engine.js). The three audio nodes are
  objects of the host audio system or \<open>null\<close>: only what the engine reads or writes of them is
  kept, namely that a buffer node exists, the gain value of the gain node and the position
  last written to the panner. The field \<open>id\<close> is named \<open>source_id\<close> and the per-source
  \<open>isPlaying\<close> is named \<open>src_isPlaying\<close>.
\<close>

record source =
  source_id :: nat
  name :: string
  buffer :: nat
  position :: vec3
  volume :: real
  locked :: bool
  node :: "unit option"
  panner :: "vec3 option"
  gainNode :: "real option"
  src_isPlaying :: bool

text \<open>Calls made on buffer nodes of the host audio system, in the order they are made.\<close>

datatype host_call = NodeStart nat | NodeStop nat

text \<open>
  \<open>SpatialAudioEngine\<close>. The JavaScript \<open>Map\<close> \<open>sources\<close> iterates in insertion order, so it
  is an association list: \<open>Map.get\<close> is \<open>map_of\<close>, \<open>Map.set\<close> is \<open>AList.update\<close> (an existing
  key keeps its place, a new key goes to the end) and \<open>Map.delete\<close> is \<open>AList.delete\<close>.
  A write to a field of a source object found in the map is an \<open>AList.update\<close> of its entry.
  \<open>audioContext\<close> records whether the context is non-null; \<open>ctxForward\<close> and \<open>ctxUp\<close> are
  the orientation vectors of \<open>audioContext.listener\<close>.
\<close>

record engine =
  audioContext :: bool
  listener :: vec3
  sources :: "(nat \<times> source) list"
  isPlaying :: bool
  initialized :: bool
  nextSourceId :: nat
  ctxForward :: vec3
  ctxUp :: vec3
  hostLog :: "host_call list"

section \<open>SpatialAudioEngine\<close>

definition engine_constructor :: engine where
  "engine_constructor =
     \<lparr>audioContext = False, listener = vec 0 0 0, sources = [], isPlaying = False,
      initialized = False, nextSourceId = 1,
      ctxForward = vec 0 0 (- 1), ctxUp = vec 0 1 0, hostLog = []\<rparr>"

text \<open>\<open>init\<close>: \<open>contextAvailable\<close> says whether the host lets the \<open>AudioContext\<close> be
  constructed (the \<open>catch\<close> branch otherwise). The listeners that resume a suspended
  context are left out.\<close>

definition init :: "bool \<Rightarrow> engine \<Rightarrow> bool \<times> engine" where
  "init contextAvailable eng =
     (if initialized eng then (True, eng)
      else if contextAvailable then (True, eng\<lparr>audioContext := True, initialized := True\<rparr>)
      else (False, eng\<lparr>initialized := False\<rparr>))"

text \<open>\<open>updateSourcePosition(panner, sourcePosition)\<close>: the value written to the panner. Both
  branches (the \<open>positionX\<close> parameters and the old \<open>setPosition\<close>) write the same three
  numbers.\<close>

definition updateSourcePosition :: "engine \<Rightarrow> vec3 \<Rightarrow> vec3" where
  "updateSourcePosition eng sourcePosition =
     (let relativeX = vec_x sourcePosition - vec_x (listener eng);
          relativeY = vec_y sourcePosition - vec_y (listener eng);
          relativeZ = vec_z sourcePosition - vec_z (listener eng)
      in vec relativeX relativeY relativeZ)"

definition createSource :: "nat \<Rightarrow> string \<Rightarrow> vec3 \<Rightarrow> engine \<Rightarrow> nat \<times> engine" where
  "createSource audioBuffer nm pos eng =
     (let sourceId = nextSourceId eng;
          eng1 = eng\<lparr>nextSourceId := nextSourceId eng + 1\<rparr>;
          src = \<lparr>source_id = sourceId, name = nm, buffer = audioBuffer, position = pos,
                 volume = 1, locked = False, node = None, panner = None, gainNode = None,
                 src_isPlaying = False\<rparr>
      in (sourceId, eng1\<lparr>sources := AList.update sourceId src (sources eng1)\<rparr>))"

definition stopSource :: "nat \<Rightarrow> engine \<Rightarrow> engine" where
  "stopSource sourceId eng =
     (case map_of (sources eng) sourceId of
        None \<Rightarrow> eng
      | Some src \<Rightarrow>
          if node src = None then eng
          else eng\<lparr>hostLog := hostLog eng @ [NodeStop sourceId],
                    sources := AList.update sourceId
                      (src\<lparr>node := None, gainNode := None, panner := None,
                            src_isPlaying := False\<rparr>) (sources eng)\<rparr>)"

definition removeSource :: "nat \<Rightarrow> engine \<Rightarrow> engine" where
  "removeSource sourceId eng =
     (case map_of (sources eng) sourceId of
        None \<Rightarrow> eng
      | Some src \<Rightarrow>
          (let eng1 = stopSource sourceId eng
           in eng1\<lparr>sources := AList.delete sourceId (sources eng1)\<rparr>))"

text \<open>\<open>startSource\<close>: the \<open>onended\<close> callback it installs runs later, from the host's event
  loop, and only when a node ends; it is not part of the call and is left out.\<close>

definition startSource :: "nat \<Rightarrow> engine \<Rightarrow> engine" where
  "startSource sourceId eng =
     (case map_of (sources eng) sourceId of
        None \<Rightarrow> eng
      | Some src \<Rightarrow>
          if \<not> audioContext eng then eng
          else
            (let log1 = (if node src \<noteq> None then hostLog eng @ [NodeStop sourceId]
                         else hostLog eng);
                 src1 = src\<lparr>node := Some (), gainNode := Some (volume src),
                            panner := Some (updateSourcePosition eng (position src)),
                            src_isPlaying := True\<rparr>
             in eng\<lparr>hostLog := log1 @ [NodeStart sourceId],
                     sources := AList.update sourceId src1 (sources eng)\<rparr>))"

definition playAll :: "engine \<Rightarrow> engine" where
  "playAll eng =
     (if \<not> audioContext eng then eng
      else (fold startSource (map fst (sources eng)) eng)\<lparr>isPlaying := True\<rparr>)"

definition pauseAll :: "engine \<Rightarrow> engine" where
  "pauseAll eng = (fold stopSource (map fst (sources eng)) eng)\<lparr>isPlaying := False\<rparr>"

definition setSourceVolume :: "nat \<Rightarrow> real \<Rightarrow> engine \<Rightarrow> engine" where
  "setSourceVolume sourceId v eng =
     (case map_of (sources eng) sourceId of
        None \<Rightarrow> eng
      | Some src \<Rightarrow>
          (let nv = max 0 (min 1 v);
               src1 = src\<lparr>volume := nv\<rparr>;
               src2 = (if gainNode src1 \<noteq> None then src1\<lparr>gainNode := Some nv\<rparr> else src1)
           in eng\<lparr>sources := AList.update sourceId src2 (sources eng)\<rparr>))"

definition setSourcePosition :: "nat \<Rightarrow> vec3 \<Rightarrow> engine \<Rightarrow> engine" where
  "setSourcePosition sourceId pos eng =
     (case map_of (sources eng) sourceId of
        None \<Rightarrow> eng
      | Some src \<Rightarrow>
          (let src1 = src\<lparr>position := pos\<rparr>;
               src2 = (if panner src1 \<noteq> None
                       then src1\<lparr>panner := Some (updateSourcePosition eng (position src1))\<rparr>
                       else src1)
           in eng\<lparr>sources := AList.update sourceId src2 (sources eng)\<rparr>))"

definition updateListenerPosition :: "vec3 \<Rightarrow> engine \<Rightarrow> engine" where
  "updateListenerPosition pos eng =
     (let eng1 = eng\<lparr>listener := pos\<rparr>
      in eng1\<lparr>sources :=
           map (\<lambda>(k, src). (k, if panner src \<noteq> None
                                then src\<lparr>panner := Some (updateSourcePosition eng1 (position src))\<rparr>
                                else src))
               (sources eng1)\<rparr>)"

definition updateListenerOrientation :: "real \<Rightarrow> real \<Rightarrow> engine \<Rightarrow> engine" where
  "updateListenerOrientation yaw pitch eng =
     (if \<not> audioContext eng then eng
      else
        (let yawRad = yaw * (pi / 180);
             pitchRad = pitch * (pi / 180);
             forwardX = sin yawRad * cos pitchRad;
             forwardY = sin pitchRad;
             forwardZ = - cos yawRad * cos pitchRad
         in eng\<lparr>ctxForward := vec forwardX forwardY forwardZ, ctxUp := vec 0 1 0\<rparr>))"

definition getSources :: "engine \<Rightarrow> source list" where
  "getSources eng = map snd (sources eng)"

definition getSource :: "nat \<Rightarrow> engine \<Rightarrow> source option" where
  "getSource sourceId eng = map_of (sources eng) sourceId"

definition toggleSourceLock :: "nat \<Rightarrow> engine \<Rightarrow> bool \<times> engine" where
  "toggleSourceLock sourceId eng =
     (case map_of (sources eng) sourceId of
        None \<Rightarrow> (False, eng)
      | Some src \<Rightarrow>
          (\<not> locked src,
           eng\<lparr>sources := AList.update sourceId (src\<lparr>locked := \<not> locked src\<rparr>) (sources eng)\<rparr>))"

definition setSourceLocked :: "nat \<Rightarrow> bool \<Rightarrow> engine \<Rightarrow> engine" where
  "setSourceLocked sourceId l eng =
     (case map_of (sources eng) sourceId of
        None \<Rightarrow> eng
      | Some src \<Rightarrow> eng\<lparr>sources := AList.update sourceId (src\<lparr>locked := l\<rparr>) (sources eng)\<rparr>)"

text \<open>A sequence of \<open>createSource\<close> and \<open>removeSource\<close> calls; \<open>run\<close> collects the ids that
  the \<open>createSource\<close> calls return, in call order.\<close>

datatype engine_op = CreateSource nat string vec3 | RemoveSource nat

fun run :: "engine \<Rightarrow> engine_op list \<Rightarrow> nat list \<times> engine" where
  "run eng [] = ([], eng)"
| "run eng (CreateSource b n p # ops) =
     (case createSource b n p eng of
        (i, eng1) \<Rightarrow> (case run eng1 ops of (ids, eng2) \<Rightarrow> (i # ids, eng2)))"
| "run eng (RemoveSource i # ops) = run (removeSource i eng) ops"

section \<open>MovementController\<close>

text \<open>
  \<open>MovementController\<close> (audio-engine.js, second part). \<open>mouseLook\<close> is flattened into
  \<open>mouseLook_isLocked\<close> and \<open>mouseLook_sensitivity\<close>. The fields \<open>keys\<close> and
  \<open>gamepadButtonPressed\<close> are written but never read and are left out. Every method also
  writes to the audio engine it holds, so a method maps a pair of controller and engine
  to the new pair.
\<close>

record movement =
  player :: vec3
  playerFacing :: real
  playerPitch :: real
  moveSpeed :: real
  fastMoveSpeed :: real
  movementRadius :: real
  gamepadIndex :: "nat option"
  mouseLook_isLocked :: bool
  mouseLook_sensitivity :: real

definition movement_constructor :: movement where
  "movement_constructor =
     \<lparr>player = vec 0 0 0, playerFacing = 0, playerPitch = 0, moveSpeed = 0.5,
      fastMoveSpeed = 1.5, movementRadius = 50, gamepadIndex = None,
      mouseLook_isLocked = False, mouseLook_sensitivity = 0.2\<rparr>"

text \<open>
  The first half of \<open>movePlayer\<close>: the view-relative delta is rotated by the facing and
  added to the position, each operation rounded. \<open>Math.PI\<close> is the double nearest to
  \<open>\<pi>\<close>. \<open>Math.sin\<close> and \<open>Math.cos\<close> are taken as correctly rounded: the language leaves
  their accuracy to the implementation (and fixes \<open>sin 0 = 0\<close> and \<open>cos 0 = 1\<close>), and no
  theorem below depends on their values elsewhere.
\<close>

definition applyMovement :: "real \<Rightarrow> real \<Rightarrow> real \<Rightarrow> movement \<Rightarrow> vec3" where
  "applyMovement dx dy dz mc =
     (let azimuthRad = fl (playerFacing mc * fl (fl pi / 180));
          worldDx0 = fl (dz * fl (sin azimuthRad));
          worldDz0 = fl (dz * fl (cos azimuthRad));
          worldDx = fl (worldDx0 + fl (dx * fl (cos azimuthRad)));
          worldDz = fl (worldDz0 - fl (dx * fl (sin azimuthRad)));
          worldDy = dy
      in vec (fl (vec_x (player mc) + worldDx)) (fl (vec_y (player mc) + worldDy))
             (fl (vec_z (player mc) + worldDz)))"

text \<open>\<open>distanceFromOrigin\<close> as \<open>movePlayer\<close> computes it: the three products, the two sums
  from left to right and \<open>Math.sqrt\<close>, each rounded.\<close>

definition distanceFromOrigin :: "vec3 \<Rightarrow> real" where
  "distanceFromOrigin p =
     fl (sqrt (fl (fl (fl (vec_x p * vec_x p) + fl (vec_y p * vec_y p))
                   + fl (vec_z p * vec_z p))))"


text \<open>The second half of \<open>movePlayer\<close>: the movement bubble.\<close>

definition clampToBubble :: "real \<Rightarrow> vec3 \<Rightarrow> vec3" where
  "clampToBubble radius p =
     (if distanceFromOrigin p > radius
      then (let scale = fl (radius / distanceFromOrigin p)
            in vec (fl (vec_x p * scale)) (fl (vec_y p * scale)) (fl (vec_z p * scale)))
      else p)"

definition movePlayer :: "real \<Rightarrow> real \<Rightarrow> real \<Rightarrow> movement \<times> engine \<Rightarrow> movement \<times> engine" where
  "movePlayer dx dy dz st =
     (case st of (mc, eng) \<Rightarrow>
        (let p = clampToBubble (movementRadius mc) (applyMovement dx dy dz mc)
         in (mc\<lparr>player := p\<rparr>, updateListenerPosition p eng)))"

text \<open>\<open>handleKeyDown\<close>: \<open>key\<close> is \<open>e.key.toLowerCase()\<close>.\<close>

definition handleKeyDown :: "string \<Rightarrow> bool \<Rightarrow> movement \<times> engine \<Rightarrow> movement \<times> engine" where
  "handleKeyDown key shift st =
     (let speed = (if shift then fastMoveSpeed (fst st) else moveSpeed (fst st))
      in if key = ''w'' \<or> key = ''arrowup'' then movePlayer 0 0 speed st
         else if key = ''s'' \<or> key = ''arrowdown'' then movePlayer 0 0 (- speed) st
         else if key = ''a'' \<or> key = ''arrowleft'' then movePlayer (- speed) 0 0 st
         else if key = ''d'' \<or> key = ''arrowright'' then movePlayer speed 0 0 st
         else if key = ''q'' then movePlayer 0 speed 0 st
         else if key = ''e'' then movePlayer 0 (- speed) 0 st
         else st)"

text \<open>\<open>handleMouseMove\<close>: the arguments are \<open>e.movementX\<close> and \<open>e.movementY\<close>.\<close>

definition handleMouseMove :: "real \<Rightarrow> real \<Rightarrow> movement \<times> engine \<Rightarrow> movement \<times> engine" where
  "handleMouseMove deltaX deltaY st =
     (case st of (mc, eng) \<Rightarrow>
        if \<not> mouseLook_isLocked mc then st
        else
          (let f0 = playerFacing mc + deltaX * mouseLook_sensitivity mc;
               f1 = (if f0 < 0 then f0 + 360 else f0);
               f2 = (if f1 \<ge> 360 then f1 - 360 else f1);
               p0 = playerPitch mc - deltaY * mouseLook_sensitivity mc;
               p1 = max (- 90) (min 90 p0)
           in (mc\<lparr>playerFacing := f2, playerPitch := p1\<rparr>,
               updateListenerOrientation f2 p1 eng)))"

text \<open>A gamepad as \<open>navigator.getGamepads()\<close> reports it: the axis values and, for each
  button, whether it is pressed.\<close>

record gamepad =
  axes :: "real list"
  buttons :: "bool list"

text \<open>An axis read through the dead zone: \<open>Math.abs(a) > deadzone ? a : 0\<close>. A missing
  axis is \<open>undefined\<close>, the comparison is false and the result is 0.\<close>

definition axisValue :: "gamepad \<Rightarrow> nat \<Rightarrow> real" where
  "axisValue gp i =
     (let deadzone = 0.15
      in if i < length (axes gp) \<and> \<bar>axes gp ! i\<bar> > deadzone then axes gp ! i else 0)"

text \<open>The truthiness of a Number, as in \<open>if (lx || ly)\<close>: every Number but 0 (and NaN,
  which is outside the model) is truthy.\<close>

definition truthy :: "real \<Rightarrow> bool" where
  "truthy v = (v \<noteq> 0)"

text \<open>\<open>updateGamepad\<close>: \<open>pads\<close> is the array \<open>navigator.getGamepads()\<close>.\<close>

definition updateGamepad :: "gamepad option list \<Rightarrow> movement \<times> engine \<Rightarrow> movement \<times> engine" where
  "updateGamepad pads st =
     (case gamepadIndex (fst st) of
        None \<Rightarrow> st
      | Some gi \<Rightarrow>
          (case (if gi < length pads then pads ! gi else None) of
             None \<Rightarrow> st
           | Some gp \<Rightarrow>
               (let lx = axisValue gp 0;
                    ly = axisValue gp 1;
                    st1 = (if truthy lx \<or> truthy ly
                           then movePlayer (lx * 0.2) 0 (- ly * 0.2) st else st);
                    rx = axisValue gp 2;
                    ry = axisValue gp 3;
                    st2 = (if truthy rx \<or> truthy ry
                           then (case st1 of (mc, eng) \<Rightarrow>
                                  (let f = playerFacing mc + rx * 3.0;
                                       p0 = playerPitch mc - ry * 3.0;
                                       p1 = max (- 89) (min 89 p0)
                                   in (mc\<lparr>playerFacing := f, playerPitch := p1\<rparr>,
                                       updateListenerOrientation f p1 eng)))
                           else st1)
                in if length (buttons gp) > 5
                   then (let st3 = (if buttons gp ! 5 then movePlayer 0 0.02 0 st2 else st2)
                         in if buttons gp ! 4 then movePlayer 0 (- 0.02) 0 st3 else st3)
                   else st2)))"

definition resetPosition :: "movement \<times> engine \<Rightarrow> movement \<times> engine" where
  "resetPosition st =
     (case st of (mc, eng) \<Rightarrow>
        (mc\<lparr>player := vec 0 0 0, playerFacing := 0, playerPitch := 0\<rparr>,
         updateListenerOrientation 0 0 (updateListenerPosition (vec 0 0 0) eng)))"


section \<open>Visualization\<close>

text \<open>
  \<open>Math.atan2(y, x)\<close> over the reals, by the cases of the ECMAScript definition (the reals
  have no signed zero; at \<open>(0, 0)\<close> the result is 0, as for \<open>+0, +0\<close>).
\<close>

definition atan2 :: "real \<Rightarrow> real \<Rightarrow> real" where
  "atan2 b a =
     (if a > 0 then arctan (b / a)
      else if a < 0 then (if b \<ge> 0 then arctan (b / a) + pi else arctan (b / a) - pi)
      else if b > 0 then pi / 2
      else if b < 0 then - (pi / 2)
      else 0)"

text \<open>The two loops of \<open>drawSource\<close> that normalize the azimuth:
  \<open>while (azimuth > 180) azimuth -= 360\<close> and \<open>while (azimuth < -180) azimuth += 360\<close>.\<close>

function wrapDown :: "real \<Rightarrow> real" where
  "wrapDown a = (if a > 180 then wrapDown (a - 360) else a)"
  by pat_completeness auto
termination
proof (relation "measure (\<lambda>a. nat \<lceil>(a + 180) / 360\<rceil>)")
  show "wf (measure (\<lambda>a. nat \<lceil>(a + 180) / 360\<rceil>))" by simp
next
  fix a :: real
  assume a: "180 < a"
  have e: "(a - 360 + 180) / 360 = (a + 180) / 360 - 1" by simp
  have "1 < (a + 180) / 360" using a by simp
  then have "1 < \<lceil>(a + 180) / 360\<rceil>" by linarith
  then have "nat \<lceil>(a + 180) / 360 - 1\<rceil> < nat \<lceil>(a + 180) / 360\<rceil>" by simp
  then have "nat \<lceil>(a - 360 + 180) / 360\<rceil> < nat \<lceil>(a + 180) / 360\<rceil>"
    by (simp only: e)
  then show "(a - 360, a) \<in> measure (\<lambda>a. nat \<lceil>(a + 180) / 360\<rceil>)"
    by (simp only: in_measure)
qed

function wrapUp :: "real \<Rightarrow> real" where
  "wrapUp a = (if a < - 180 then wrapUp (a + 360) else a)"
  by pat_completeness auto
termination
proof (relation "measure (\<lambda>a. nat \<lceil>(180 - a) / 360\<rceil>)")
  show "wf (measure (\<lambda>a. nat \<lceil>(180 - a) / 360\<rceil>))" by simp
next
  fix a :: real
  assume a: "a < - 180"
  have e: "(180 - (a + 360)) / 360 = (180 - a) / 360 - 1" by simp
  have "1 < (180 - a) / 360" using a by simp
  then have "1 < \<lceil>(180 - a) / 360\<rceil>" by linarith
  then have "nat \<lceil>(180 - a) / 360 - 1\<rceil> < nat \<lceil>(180 - a) / 360\<rceil>" by simp
  then have "nat \<lceil>(180 - (a + 360)) / 360\<rceil> < nat \<lceil>(180 - a) / 360\<rceil>"
    by (simp only: e)
  then show "(a + 360, a) \<in> measure (\<lambda>a. nat \<lceil>(180 - a) / 360\<rceil>)"
    by (simp only: in_measure)
qed

declare wrapDown.simps [simp del] wrapUp.simps [simp del]

text \<open>The view-relative azimuth that \<open>drawSource\<close> computes for the FOV test, in degrees.\<close>

definition viewAzimuth :: "real \<Rightarrow> real \<Rightarrow> real \<Rightarrow> real" where
  "viewAzimuth relativeX relativeZ facing =
     (let azimuth0 = atan2 relativeX relativeZ * (180 / pi);
          azimuth1 = azimuth0 - facing
      in wrapUp (wrapDown azimuth1))"

text \<open>
  \<open>Visualization\<close> (visualization.js). \<open>viewMode\<close> is the string the code compares.
  \<open>positionsLocked\<close> is the property read by the FOV test of \<open>drawSource\<close>: no code of
  the repository assigns it, so it is \<open>undefined\<close> (falsy) in every state the class reaches;
  it is kept as a field, \<open>False\<close> after the constructor, so that the test reads as in the
  source. \<open>cursor\<close> is \<open>canvas.style.cursor\<close>.

  \<open>this.sources\<close> and \<open>this.draggedSource\<close> hold references to the engine's own source
  objects, whose fields the handlers read at their current values. The model stores the
  ids (\<open>vis_sources\<close>, \<open>draggedSource\<close>) and reads the objects through the engine's map.
  An object that left the map after the last \<open>render\<close> is not found there: the hit test
  skips it, and a drag of it writes nothing, as in the code, where \<open>setSourcePosition\<close>
  does not find its id.
\<close>

record visualization =
  width :: real
  height :: real
  centerX :: real
  centerY :: real
  scale :: real
  viewMode :: string
  compositionMode :: bool
  positionsLocked :: bool
  isDragging :: bool
  draggedSource :: "nat option"
  dragOffset :: "real \<times> real"
  cursor :: string
  playerPos :: vec3
  vis_sources :: "nat list"

text \<open>The constructor, with \<open>resize\<close> run on a canvas of the given client size.\<close>

definition visualization_constructor :: "real \<Rightarrow> real \<Rightarrow> visualization" where
  "visualization_constructor clientWidth clientHeight =
     \<lparr>width = clientWidth, height = clientHeight,
      centerX = clientWidth / 2, centerY = clientHeight / 2, scale = 20,
      viewMode = ''topdown'', compositionMode = True, positionsLocked = False,
      isDragging = False, draggedSource = None, dragOffset = (0, 0), cursor = '''',
      playerPos = vec 0 0 0, vis_sources = []\<rparr>"

definition resize :: "real \<Rightarrow> real \<Rightarrow> visualization \<Rightarrow> visualization" where
  "resize clientWidth clientHeight vis =
     vis\<lparr>width := clientWidth, height := clientHeight,
         centerX := clientWidth / 2, centerY := clientHeight / 2\<rparr>"

definition toggleViewMode :: "visualization \<Rightarrow> string \<times> visualization" where
  "toggleViewMode vis =
     (let m = (if viewMode vis = ''topdown'' then ''firstperson'' else ''topdown'')
      in (m, vis\<lparr>viewMode := m\<rparr>))"

definition setViewMode :: "string \<Rightarrow> visualization \<Rightarrow> visualization" where
  "setViewMode m vis = vis\<lparr>viewMode := m\<rparr>"

definition toggleCompositionMode :: "visualization \<Rightarrow> bool \<times> visualization" where
  "toggleCompositionMode vis =
     (\<not> compositionMode vis, vis\<lparr>compositionMode := \<not> compositionMode vis\<rparr>)"

definition isCompositionMode :: "visualization \<Rightarrow> bool" where
  "isCompositionMode vis = compositionMode vis"

text \<open>The screen position of a source, as \<open>onMouseDown\<close> computes it for the hit test (and
  \<open>onMouseMove\<close> for the hover test, and \<open>drawSource\<close> for drawing).\<close>

definition screenPosition :: "visualization \<Rightarrow> vec3 \<Rightarrow> real \<times> real" where
  "screenPosition vis pos =
     (if compositionMode vis
      then (centerX vis + vec_x pos * scale vis, centerY vis - vec_z pos * scale vis)
      else (centerX vis + (vec_x pos - vec_x (playerPos vis)) * scale vis,
            centerY vis - (vec_z pos - vec_z (playerPos vis)) * scale vis))"

text \<open>The world coordinates \<open>worldX\<close>, \<open>worldZ\<close> that \<open>onMouseMove\<close> computes for a drag
  from the pointer position less the drag offset.\<close>

definition dragWorld :: "visualization \<Rightarrow> real \<times> real \<Rightarrow> real \<times> real" where
  "dragWorld vis pt =
     (if compositionMode vis
      then ((fst pt - centerX vis) / scale vis, - (snd pt - centerY vis) / scale vis)
      else ((fst pt - centerX vis) / scale vis + vec_x (playerPos vis),
            - (snd pt - centerY vis) / scale vis + vec_z (playerPos vis)))"

text \<open>The loop of \<open>onMouseDown\<close> over \<open>this.sources\<close>: the first unlocked source within 30
  pixels of the pointer, with the offset of the pointer from its screen position.\<close>

fun hitTest :: "visualization \<Rightarrow> engine \<Rightarrow> real \<Rightarrow> real \<Rightarrow> nat list \<Rightarrow> (nat \<times> real \<times> real) option" where
  "hitTest vis eng mouseX mouseY [] = None"
| "hitTest vis eng mouseX mouseY (i # rest) =
     (case map_of (sources eng) i of
        None \<Rightarrow> hitTest vis eng mouseX mouseY rest
      | Some src \<Rightarrow>
          if locked src then hitTest vis eng mouseX mouseY rest
          else
            (let dx = mouseX - fst (screenPosition vis (position src));
                 dy = mouseY - snd (screenPosition vis (position src));
                 distance = sqrt (dx * dx + dy * dy)
             in if distance < 30 then Some (i, dx, dy)
                else hitTest vis eng mouseX mouseY rest))"

text \<open>\<open>onMouseDown\<close>: \<open>pointerLocked\<close> is \<open>document.pointerLockElement === this.canvas\<close>;
  \<open>mouseX\<close>, \<open>mouseY\<close> are the pointer coordinates relative to the canvas.\<close>

definition onMouseDown :: "bool \<Rightarrow> real \<Rightarrow> real \<Rightarrow> engine \<Rightarrow> visualization \<Rightarrow> visualization" where
  "onMouseDown pointerLocked mouseX mouseY eng vis =
     (if pointerLocked then vis
      else (case hitTest vis eng mouseX mouseY (vis_sources vis) of
              None \<Rightarrow> vis
            | Some (i, dx, dy) \<Rightarrow>
                vis\<lparr>isDragging := True, draggedSource := Some i, dragOffset := (dx, dy),
                    cursor := ''grabbing''\<rparr>))"

definition onMouseMove :: "bool \<Rightarrow> real \<Rightarrow> real \<Rightarrow> visualization \<times> engine \<Rightarrow> visualization \<times> engine" where
  "onMouseMove pointerLocked mouseX mouseY st =
     (case st of (vis, eng) \<Rightarrow>
        if pointerLocked then st
        else if isDragging vis \<and> draggedSource vis \<noteq> None then
          (case draggedSource vis of
             None \<Rightarrow> st
           | Some i \<Rightarrow>
               (case map_of (sources eng) i of
                  None \<Rightarrow> st
                | Some src \<Rightarrow>
                    (let w = dragWorld vis (mouseX - fst (dragOffset vis),
                                            mouseY - snd (dragOffset vis))
                     in (vis, setSourcePosition i
                                (vec (fst w) (vec_y (position src)) (snd w)) eng))))
        else
          (let hovering = (hitTest vis eng mouseX mouseY (vis_sources vis) \<noteq> None)
           in (vis\<lparr>cursor := (if hovering then ''grab'' else ''default'')\<rparr>, eng)))"

definition onMouseUp :: "visualization \<Rightarrow> visualization" where
  "onMouseUp vis = vis\<lparr>isDragging := False, draggedSource := None, cursor := ''default''\<rparr>"

text \<open>What \<open>drawSource\<close> does with a source: it returns early in three places, or draws
  the source at a screen position with a radius (before the pulse animation, which depends
  on the clock).\<close>

datatype draw_result = AtListener | BehindViewer | OffScreen | Drawn real real real

definition drawSource :: "visualization \<Rightarrow> source \<Rightarrow> vec3 \<Rightarrow> real \<Rightarrow> draw_result" where
  "drawSource vis src pp facing =
     (let relativeX = vec_x (position src) - vec_x pp;
          relativeZ = vec_z (position src) - vec_z pp;
          screenX = (if compositionMode vis then centerX vis + vec_x (position src) * scale vis
                     else centerX vis + relativeX * scale vis);
          screenY = (if compositionMode vis then centerY vis - vec_z (position src) * scale vis
                     else centerY vis - relativeZ * scale vis);
          distance = sqrt (relativeX * relativeX + relativeZ * relativeZ)
      in if distance < 0.001 then AtListener
         else if viewMode vis = ''firstperson'' \<and> \<not> positionsLocked vis \<and>
                 \<bar>viewAzimuth relativeX relativeZ facing\<bar> > 90 then BehindViewer
         else if screenX < - 50 \<or> screenX > width vis + 50 \<or>
                 screenY < - 50 \<or> screenY > height vis + 50 then OffScreen
         else
           (let baseRadius = 25;
                minRadius = 8;
                maxDistance = 20;
                distanceFactor = max 0 (1 - distance / maxDistance)
            in Drawn screenX screenY (minRadius + (baseRadius - minRadius) * distanceFactor)))"

text \<open>The screen position of the player marker in \<open>drawPlayer\<close>.\<close>

definition drawPlayer :: "visualization \<Rightarrow> vec3 \<Rightarrow> real \<times> real" where
  "drawPlayer vis pp =
     (if compositionMode vis
      then (centerX vis + vec_x pp * scale vis, centerY vis - vec_z pp * scale vis)
      else (centerX vis, centerY vis))"

text \<open>\<open>render\<close>: stores the state for hit detection and draws every source.\<close>

definition render :: "vec3 \<Rightarrow> source list \<Rightarrow> real \<Rightarrow> visualization \<Rightarrow> visualization \<times> draw_result list" where
  "render pp srcs facing vis =
     (let vis1 = vis\<lparr>playerPos := pp, vis_sources := map source_id srcs\<rparr>
      in (vis1, map (\<lambda>src. drawSource vis1 src pp facing) srcs))"

section \<open>SourceManager\<close>

text \<open>
  The three coordinate fields that \<open>renderSource\<close> emits for a source, as the strings the
  user has typed, in document order (x, y, z).
\<close>

record coord_inputs =
  input_x :: string
  input_y :: string
  input_z :: string

text \<open>
  \<open>SourceManager.updateSourcePosition\<close> (here \<open>submitSourcePosition\<close>, the engine having a
  method of the same name). \<open>parseFloat\<close> is the JavaScript builtin, taken as a parameter:
  \<open>None\<close> stands for the result \<open>NaN\<close>. The result is the text of the alert shown, if any,
  and the engine.
\<close>

definition submitSourcePosition ::
    "(string \<Rightarrow> real option) \<Rightarrow> nat \<Rightarrow> coord_inputs \<Rightarrow> engine \<Rightarrow> string option \<times> engine" where
  "submitSourcePosition parseFloat sourceId inputs eng =
     (case getSource sourceId eng of
        None \<Rightarrow> (None, eng)
      | Some src \<Rightarrow>
          (case (parseFloat (input_x inputs), parseFloat (input_y inputs),
                 parseFloat (input_z inputs)) of
             (Some a, Some b, Some c) \<Rightarrow> (None, setSourcePosition sourceId (vec a b c) eng)
           | _ \<Rightarrow> (Some ''Please enter valid numbers for all coordinates'', eng)))"

section \<open>SHACSimulator\<close>

text \<open>The application object of app.js with its three stateful components.\<close>

record simulator =
  audioEngine :: engine
  movement :: movement
  visualization :: visualization

text \<open>The click handler of the mode toggle button (authoring against composition).\<close>

definition modeToggleClick :: "simulator \<Rightarrow> simulator" where
  "modeToggleClick app =
     app\<lparr>visualization := snd (toggleCompositionMode (visualization app))\<rparr>"

text \<open>The positions held by the panners of the playing sources: what the spatializer has
  been fed, by source id.\<close>

definition pannerOffsets :: "engine \<Rightarrow> (nat \<times> vec3 option) list" where
  "pannerOffsets eng = map (\<lambda>(k, src). (k, panner src)) (sources eng)"

text \<open>Every panner holds the offset of its source from the engine's listener position.\<close>

definition pannerConsistent :: "engine \<Rightarrow> bool" where
  "pannerConsistent eng =
     list_all (\<lambda>(k, src). case panner src of
                               None \<Rightarrow> True
                             | Some q \<Rightarrow> q = updateSourcePosition eng (position src))
              (sources eng)"

section \<open>Example states\<close>

text \<open>An engine with one source, id 1, at \<open>(10, 0, 0)\<close>, then locked through
  \<open>toggleSourceLock\<close>; and the same engine initialized, with the source playing instead.\<close>

definition oneSourceEngine :: engine where
  "oneSourceEngine = snd (createSource 0 ''track'' (vec 10 0 0) engine_constructor)"

definition lockedSourceEngine :: engine where
  "lockedSourceEngine = snd (toggleSourceLock 1 oneSourceEngine)"

definition playingSourceEngine :: engine where
  "playingSourceEngine = startSource 1 (snd (init True oneSourceEngine))"

text \<open>A visualization of an 800 by 600 canvas, switched to authoring mode, after a render
  frame with the player at \<open>(2, 0, 3)\<close> and the sources of \<open>oneSourceEngine\<close>.\<close>

definition authoringVis :: visualization where
  "authoringVis =
     fst (render (vec 2 0 3) (getSources oneSourceEngine) 0
            (snd (toggleCompositionMode (visualization_constructor 800 600))))"

text \<open>The visualization of an 800 by 600 canvas after one click on the mode toggle and one
  on the view toggle: first-person view in authoring mode. And the source object that
  \<open>createSource\<close> builds first, at a given position.\<close>

definition firstPersonAuthoringVis :: visualization where
  "firstPersonAuthoringVis =
     snd (toggleViewMode (snd (toggleCompositionMode (visualization_constructor 800 600))))"

definition sourceAt :: "vec3 \<Rightarrow> source" where
  "sourceAt pos =
     \<lparr>source_id = 1, name = ''track'', buffer = 0, position = pos, volume = 1,
      locked = False, node = None, panner = None, gainNode = None, src_isPlaying = False\<rparr>"

text \<open>The same canvas after one click on the view toggle only: first-person view in
  composition mode.\<close>

definition firstPersonVis :: visualization where
  "firstPersonVis = snd (toggleViewMode (visualization_constructor 800 600))"

text \<open>A stand-in for \<open>parseFloat\<close> for the examples: it agrees with \<open>parseFloat\<close> on the
  three numerals of its table and on every string that \<open>parseFloat\<close> maps to \<open>NaN\<close>, such
  as \<open>abc\<close>.\<close>

definition parseFloatTable :: "string \<Rightarrow> real option" where
  "parseFloatTable = map_of [(''1.5'', 1.5), (''2'', 2), (''-3'', - 3)]"

section \<open>Source ids\<close>

lemma createSource_fst: "fst (createSource b n p eng) = nextSourceId eng"
  by (simp add: createSource_def Let_def)

lemma createSource_next: "nextSourceId (snd (createSource b n p eng)) = nextSourceId eng + 1"
  by (simp add: createSource_def Let_def)

lemma stopSource_next: "nextSourceId (stopSource i eng) = nextSourceId eng"
  by (simp add: stopSource_def split: option.splits)

lemma removeSource_next: "nextSourceId (removeSource i eng) = nextSourceId eng"
  by (simp add: removeSource_def Let_def stopSource_next split: option.splits)

lemma run_ids_ge: "i \<in> set (fst (run eng ops)) \<Longrightarrow> nextSourceId eng \<le> i"
proof (induction eng ops rule: run.induct)
  case (1 eng)
  then show ?case by simp
next
  case (2 eng b n p ops)
  obtain j e1 where c: "createSource b n p eng = (j, e1)" by (cases "createSource b n p eng")
  obtain ids e2 where r: "run e1 ops = (ids, e2)" by (cases "run e1 ops")
  have j: "j = nextSourceId eng" using createSource_fst [of b n p eng] c by simp
  have n1: "nextSourceId e1 = nextSourceId eng + 1" using createSource_next [of b n p eng] c by simp
  from "2.prems" c r have "i = j \<or> i \<in> set ids" by simp
  then show ?case
  proof
    assume "i = j" then show ?thesis using j by simp
  next
    assume "i \<in> set ids"
    then have "nextSourceId e1 \<le> i" using "2.IH" [OF c [symmetric]] r by simp
    then show ?thesis using n1 by simp
  qed
next
  case (3 eng k ops)
  then show ?case by (simp add: removeSource_next)
qed

lemma run_ids_sorted: "sorted_wrt (<) (fst (run eng ops))"
proof (induction eng ops rule: run.induct)
  case (1 eng)
  then show ?case by simp
next
  case (2 eng b n p ops)
  obtain j e1 where c: "createSource b n p eng = (j, e1)" by (cases "createSource b n p eng")
  obtain ids e2 where r: "run e1 ops = (ids, e2)" by (cases "run e1 ops")
  have j: "j = nextSourceId eng" using createSource_fst [of b n p eng] c by simp
  have n1: "nextSourceId e1 = nextSourceId eng + 1" using createSource_next [of b n p eng] c by simp
  have "\<forall>i\<in>set ids. j < i"
  proof
    fix i assume "i \<in> set ids"
    then have "nextSourceId e1 \<le> i" using run_ids_ge [of i e1 ops] r by simp
    then show "j < i" using j n1 by simp
  qed
  moreover have "sorted_wrt (<) ids" using "2.IH" [OF c [symmetric]] r by simp
  ultimately show ?case using c r by simp
next
  case (3 eng k ops)
  then show ?case by simp
qed

text \<open>
  Claim C10 (source id freshness and monotonicity). In every sequence of \<open>createSource\<close> and
  \<open>removeSource\<close> calls, from any engine state, the ids returned by the \<open>createSource\<close>
  calls are strictly increasing in call order, hence pairwise distinct (an id is never
  handed out twice, also after its source was removed), and none is below the
  \<open>nextSourceId\<close> of the starting state.
\<close>

theorem createSource_ids_strictly_increasing:
  "sorted_wrt (<) (fst (run eng ops)) \<and> distinct (fst (run eng ops)) \<and>
   (\<forall>i \<in> set (fst (run eng ops)). nextSourceId eng \<le> i)"
proof -
  have s: "sorted_wrt (<) (fst (run eng ops))" by (rule run_ids_sorted)
  have "distinct (fst (run eng ops))" using s strict_sorted_iff by blast
  then show ?thesis using s run_ids_ge by blast
qed

theorem createSource_ids_strictly_increasing_witness:
  "fst (run engine_constructor
          [CreateSource 0 ''a'' (vec 10 0 0), RemoveSource 1, CreateSource 0 ''b'' (vec 0 0 10)])
     = [1, 2] \<and>
   sorted_wrt (<) [1, 2 :: nat] \<and> distinct [1, 2 :: nat] \<and>
   nextSourceId engine_constructor \<le> 1 \<and> nextSourceId engine_constructor \<le> 2"
proof -
  have r: "fst (run engine_constructor
          [CreateSource 0 ''a'' (vec 10 0 0), RemoveSource 1, CreateSource 0 ''b'' (vec 0 0 10)])
     = [1, 2]"
    by (simp add: createSource_def removeSource_def stopSource_def engine_constructor_def Let_def)
  show ?thesis
    using createSource_ids_strictly_increasing [of engine_constructor
          "[CreateSource 0 ''a'' (vec 10 0 0), RemoveSource 1, CreateSource 0 ''b'' (vec 0 0 10)]"]
    unfolding r by simp
qed

section \<open>Movement bubble\<close>



lemma movePlayer_listener:
  "listener (snd (movePlayer dx dy dz st)) = player (fst (movePlayer dx dy dz st))"
  by (cases st) (simp add: movePlayer_def Let_def updateListenerPosition_def)

subsection \<open>Rounding\<close>


































subsection \<open>The delta (30, 40, 1) from the origin\<close>














subsection \<open>The delta (3, 4, 0) from the origin\<close>










section \<open>Orientation\<close>

text \<open>
  The pointer-lock path: from a yaw in \<open>[0, 360)\<close> a mouse delta of at most one full turn
  leaves the yaw in \<open>[0, 360)\<close> (the two \<open>if\<close>s wrap once), and the pitch is clamped to
  \<open>[-90, 90]\<close>.
\<close>

lemma handleMouseMove_orientation:
  assumes "mouseLook_isLocked mc"
    and "0 \<le> playerFacing mc" and "playerFacing mc < 360"
    and "\<bar>deltaX * mouseLook_sensitivity mc\<bar> \<le> 360"
  shows "0 \<le> playerFacing (fst (handleMouseMove deltaX deltaY (mc, eng))) \<and>
         playerFacing (fst (handleMouseMove deltaX deltaY (mc, eng))) < 360 \<and>
         - 90 \<le> playerPitch (fst (handleMouseMove deltaX deltaY (mc, eng))) \<and>
         playerPitch (fst (handleMouseMove deltaX deltaY (mc, eng))) \<le> 90"
  using assms by (auto simp add: handleMouseMove_def Let_def)

text \<open>The gamepad path keeps the pitch in range (it clamps to \<open>[-89, 89]\<close>).\<close>

lemma updateGamepad_pitch:
  assumes "- 90 \<le> playerPitch mc" and "playerPitch mc \<le> 90"
  shows "- 90 \<le> playerPitch (fst (updateGamepad pads (mc, eng))) \<and>
         playerPitch (fst (updateGamepad pads (mc, eng))) \<le> 90"
  using assms
  by (auto simp add: updateGamepad_def movePlayer_def truthy_def Let_def
      split: option.splits prod.splits)

text \<open>
  Claim C7 (orientation normalization). The claim asks for a yaw in \<open>[0, 360)\<close> after every
  orientation update. The gamepad path adds the right-stick sample to the yaw and does not
  wrap it: from the initial yaw 0 a full left deflection gives \<open>-3\<close>, and from yaw 359 a
  full right deflection gives 362.
\<close>

theorem updateGamepad_yaw_not_wrapped:
  "playerFacing (fst (updateGamepad [Some \<lparr>axes = [0, 0, - 1, 0], buttons = []\<rparr>]
      (movement_constructor\<lparr>gamepadIndex := Some 0\<rparr>, engine_constructor))) = - 3 \<and>
   playerFacing (fst (updateGamepad [Some \<lparr>axes = [0, 0, 1, 0], buttons = []\<rparr>]
      (movement_constructor\<lparr>gamepadIndex := Some 0, playerFacing := 359\<rparr>, engine_constructor))) = 362"
  by (simp add: updateGamepad_def axisValue_def truthy_def movement_constructor_def
      engine_constructor_def updateListenerOrientation_def Let_def)

text \<open>The single wrap of the pointer-lock path does not bring a delta of more than one
  turn back into range.\<close>

lemma handleMouseMove_large_delta:
  "playerFacing (fst (handleMouseMove 4000 0
      (movement_constructor\<lparr>mouseLook_isLocked := True\<rparr>, engine_constructor))) = 440"
  by (simp add: handleMouseMove_def movement_constructor_def Let_def)

section \<open>The scene model: lock, stop and removal\<close>

lemma oneSourceEngine_sources:
  "sources oneSourceEngine =
     [(1, \<lparr>source_id = 1, name = ''track'', buffer = 0, position = vec 10 0 0, volume = 1,
           locked = False, node = None, panner = None, gainNode = None,
           src_isPlaying = False\<rparr>)]"
  by (simp add: oneSourceEngine_def createSource_def engine_constructor_def Let_def)

lemma lockedSourceEngine_sources:
  "sources lockedSourceEngine =
     [(1, \<lparr>source_id = 1, name = ''track'', buffer = 0, position = vec 10 0 0, volume = 1,
           locked = True, node = None, panner = None, gainNode = None,
           src_isPlaying = False\<rparr>)]"
  by (simp add: lockedSourceEngine_def toggleSourceLock_def oneSourceEngine_sources)

lemma playingSourceEngine_sources:
  "sources playingSourceEngine =
     [(1, \<lparr>source_id = 1, name = ''track'', buffer = 0, position = vec 10 0 0, volume = 1,
           locked = False, node = Some (), panner = Some (vec 10 0 0), gainNode = Some 1,
           src_isPlaying = True\<rparr>)]"
  by (simp add: playingSourceEngine_def startSource_def init_def oneSourceEngine_def
      createSource_def engine_constructor_def updateSourcePosition_def Let_def)
     (simp add: vec_def)

lemma playingSourceEngine_hostLog: "hostLog playingSourceEngine = [NodeStart 1]"
  by (simp add: playingSourceEngine_def startSource_def init_def oneSourceEngine_def
      createSource_def engine_constructor_def Let_def)

subsection \<open>setSourcePosition and the lock\<close>

lemma setSourcePosition_unknown:
  "map_of (sources eng) i = None \<Longrightarrow> setSourcePosition i p eng = eng"
  by (simp add: setSourcePosition_def)

lemma setSourcePosition_known:
  assumes "map_of (sources eng) i = Some src"
  shows "map_option position (getSource i (setSourcePosition i p eng)) = Some p"
    and "map_option locked (getSource i (setSourcePosition i p eng)) = Some (locked src)"
  using assms
  by (simp_all add: setSourcePosition_def getSource_def Let_def AList.update_conv')

lemma setSourcePosition_other:
  "j \<noteq> i \<Longrightarrow> getSource j (setSourcePosition i p eng) = getSource j eng"
  by (simp add: setSourcePosition_def getSource_def Let_def AList.update_conv'
      split: option.splits)

lemma setSourceLocked_known:
  "map_of (sources eng) i = Some src \<Longrightarrow>
   map_of (sources (setSourceLocked i l eng)) i = Some (src\<lparr>locked := l\<rparr>)"
  by (simp add: setSourceLocked_def AList.update_conv')

lemma hitTest_unlocked:
  "hitTest vis eng mx my ids = Some (j, dx, dy) \<Longrightarrow>
   \<exists>s. map_of (sources eng) j = Some s \<and> \<not> locked s"
  by (induction ids) (auto simp add: Let_def split: option.splits if_splits)

text \<open>
  Claim C1 (lock invariant), as stated, fails: \<open>setSourcePosition\<close> does not read the
  \<open>locked\<close> flag. On the engine whose only source is locked at \<open>(10, 0, 0)\<close>, the call
  with \<open>(5, 0, 0)\<close> moves the source.
\<close>

theorem setSourcePosition_locked_counterexample:
  "map_option locked (getSource 1 lockedSourceEngine) = Some True \<and>
   map_option position (getSource 1 lockedSourceEngine) = Some (vec 10 0 0) \<and>
   map_option position (getSource 1 (setSourcePosition 1 (vec 5 0 0) lockedSourceEngine))
     = Some (vec 5 0 0) \<and>
   vec 5 0 0 \<noteq> vec 10 0 0"
  by (simp add: getSource_def setSourcePosition_def lockedSourceEngine_sources Let_def)
     (simp add: vec_def)

text \<open>
  Claim C1, amended. For a known id \<open>setSourcePosition\<close> sets the position to the given
  value whether the source is locked or not and leaves the flag as it is; in particular
  it does so after \<open>setSourceLocked\<close> has set the flag to false. For an unknown id it
  changes nothing. The lock is enforced where a drag starts: the hit test of
  \<open>onMouseDown\<close> only ever picks a source that is in the map and unlocked.
\<close>

theorem setSourcePosition_ignores_lock:
  "(map_of (sources eng) i = Some src \<longrightarrow>
      map_option position (getSource i (setSourcePosition i p eng)) = Some p \<and>
      map_option locked (getSource i (setSourcePosition i p eng)) = Some (locked src) \<and>
      map_option position (getSource i (setSourcePosition i p (setSourceLocked i False eng)))
        = Some p) \<and>
   (map_of (sources eng) i = None \<longrightarrow> setSourcePosition i p eng = eng) \<and>
   (hitTest vis eng mx my ids = Some (j, dx, dy) \<longrightarrow>
      (\<exists>s. map_of (sources eng) j = Some s \<and> \<not> locked s))"
proof (intro conjI impI)
  assume k: "map_of (sources eng) i = Some src"
  show "map_option position (getSource i (setSourcePosition i p eng)) = Some p"
    by (rule setSourcePosition_known(1) [OF k])
  show "map_option locked (getSource i (setSourcePosition i p eng)) = Some (locked src)"
    by (rule setSourcePosition_known(2) [OF k])
  show "map_option position (getSource i (setSourcePosition i p (setSourceLocked i False eng)))
        = Some p"
    by (rule setSourcePosition_known(1) [OF setSourceLocked_known [OF k]])
next
  assume "map_of (sources eng) i = None"
  then show "setSourcePosition i p eng = eng" by (rule setSourcePosition_unknown)
next
  assume "hitTest vis eng mx my ids = Some (j, dx, dy)"
  then show "\<exists>s. map_of (sources eng) j = Some s \<and> \<not> locked s" by (rule hitTest_unlocked)
qed

lemma hitTest_example:
  "hitTest (visualization_constructor 800 600) oneSourceEngine 600 300 [1] = Some (1, 0, 0)"
  by (simp add: oneSourceEngine_sources screenPosition_def visualization_constructor_def
      vec_def Let_def)

theorem setSourcePosition_ignores_lock_witness:
  "map_option locked (getSource 1 lockedSourceEngine) = Some True \<and>
   map_option position (getSource 1 (setSourcePosition 1 (vec 5 0 0) lockedSourceEngine))
     = Some (vec 5 0 0) \<and>
   map_option locked (getSource 1 (setSourcePosition 1 (vec 5 0 0) lockedSourceEngine))
     = Some True \<and>
   map_of (sources lockedSourceEngine) 7 = None \<and>
   setSourcePosition 7 (vec 5 0 0) lockedSourceEngine = lockedSourceEngine \<and>
   hitTest (visualization_constructor 800 600) oneSourceEngine 600 300 [1] = Some (1, 0, 0) \<and>
   (\<exists>s. map_of (sources oneSourceEngine) 1 = Some s \<and> \<not> locked s)"
proof -
  let ?src = "\<lparr>source_id = 1, name = ''track'', buffer = 0, position = vec 10 0 0, volume = 1,
           locked = True, node = None, panner = None, gainNode = None,
           src_isPlaying = False\<rparr>"
  have k: "map_of (sources lockedSourceEngine) 1 = Some ?src"
    by (simp add: lockedSourceEngine_sources)
  have u: "map_of (sources lockedSourceEngine) 7 = None"
    by (simp add: lockedSourceEngine_sources)
  have a: "map_option position (getSource 1 (setSourcePosition 1 (vec 5 0 0) lockedSourceEngine))
             = Some (vec 5 0 0) \<and>
           map_option locked (getSource 1 (setSourcePosition 1 (vec 5 0 0) lockedSourceEngine))
             = Some (locked ?src)"
    using setSourcePosition_ignores_lock [of lockedSourceEngine 1 ?src "vec 5 0 0"
      "visualization_constructor 800 600" 600 300 "[]" 1 0 0] k by blast
  have b: "setSourcePosition 7 (vec 5 0 0) lockedSourceEngine = lockedSourceEngine"
    using setSourcePosition_ignores_lock [of lockedSourceEngine 7 ?src "vec 5 0 0"
      "visualization_constructor 800 600" 600 300 "[]" 1 0 0] u by blast
  have c: "\<exists>s. map_of (sources oneSourceEngine) 1 = Some s \<and> \<not> locked s"
    using setSourcePosition_ignores_lock [of oneSourceEngine 1 ?src "vec 5 0 0"
      "visualization_constructor 800 600" 600 300 "[1]" 1 0 0] hitTest_example by blast
  have l: "map_option locked (getSource 1 lockedSourceEngine) = Some True"
    using k by (simp add: getSource_def)
  have "locked ?src = True" by simp
  with a have a': "map_option locked (getSource 1 (setSourcePosition 1 (vec 5 0 0) lockedSourceEngine))
             = Some True" by simp
  show ?thesis using a a' b c u l hitTest_example by blast
qed

subsection \<open>Stopping and removing\<close>

lemma stopSource_unknown: "map_of (sources eng) i = None \<Longrightarrow> stopSource i eng = eng"
  by (simp add: stopSource_def)

lemma stopSource_no_route:
  "map_of (sources eng) i = Some src \<Longrightarrow> node src = None \<Longrightarrow> stopSource i eng = eng"
  by (simp add: stopSource_def)

lemma stopSource_idem: "stopSource i (stopSource i eng) = stopSource i eng"
proof (cases "map_of (sources eng) i")
  case None
  then show ?thesis by (simp add: stopSource_unknown)
next
  case (Some src)
  show ?thesis
  proof (cases "node src = None")
    case True
    then show ?thesis using Some by (simp add: stopSource_no_route)
  next
    case False
    let ?s = "src\<lparr>node := None, gainNode := None, panner := None, src_isPlaying := False\<rparr>"
    have "map_of (sources (stopSource i eng)) i = Some ?s"
      using Some False by (simp add: stopSource_def AList.update_conv')
    moreover have "node ?s = None" by simp
    ultimately show ?thesis by (rule stopSource_no_route)
  qed
qed

lemma stopSource_sources_delete:
  "AList.delete i (sources (stopSource i eng)) = AList.delete i (sources eng)"
  by (simp add: stopSource_def AList.delete_update_same split: option.splits)

lemma removeSource_unknown: "map_of (sources eng) i = None \<Longrightarrow> removeSource i eng = eng"
  by (simp add: removeSource_def)

lemma removeSource_known:
  "map_of (sources eng) i = Some src \<Longrightarrow>
   removeSource i eng =
     (stopSource i eng)\<lparr>sources := AList.delete i (sources (stopSource i eng))\<rparr>"
  by (simp add: removeSource_def Let_def)

lemma removeSource_sources: "sources (removeSource i eng) = AList.delete i (sources eng)"
proof (cases "map_of (sources eng) i")
  case None
  then have "i \<notin> fst ` set (sources eng)" by (simp add: map_of_eq_None_iff)
  then show ?thesis using None by (simp add: removeSource_unknown)
next
  case (Some src)
  then show ?thesis by (simp add: removeSource_known stopSource_sources_delete)
qed

lemma removeSource_hostLog:
  "map_of (sources eng) i = Some src \<Longrightarrow>
   hostLog (removeSource i eng) =
     (if node src = None then hostLog eng else hostLog eng @ [NodeStop i])"
  by (simp add: removeSource_known stopSource_def)

text \<open>
  Claim C8 (removal stops playback first; stop is idempotent). \<open>stopSource\<close> changes
  nothing for an unknown id or a source without a buffer node, and stopping twice is
  stopping once. For a known id \<open>removeSource\<close> is \<open>stopSource\<close> followed by the deletion
  from the map, so the host sees the node stopped exactly when there was one. Afterwards
  \<open>getSources\<close> lists the other sources in their order and the id is gone; every other id
  is looked up as before. For an unknown id \<open>removeSource\<close> changes nothing.
\<close>

theorem removeSource_stops_then_deletes:
  "(map_of (sources eng) i = None \<longrightarrow> stopSource i eng = eng \<and> removeSource i eng = eng) \<and>
   (map_of (sources eng) i = Some src \<and> node src = None \<longrightarrow> stopSource i eng = eng) \<and>
   stopSource i (stopSource i eng) = stopSource i eng \<and>
   (map_of (sources eng) i = Some src \<longrightarrow>
      removeSource i eng =
        (stopSource i eng)\<lparr>sources := AList.delete i (sources (stopSource i eng))\<rparr> \<and>
      hostLog (removeSource i eng) =
        (if node src = None then hostLog eng else hostLog eng @ [NodeStop i])) \<and>
   getSources (removeSource i eng) = map snd (AList.delete i (sources eng)) \<and>
   getSource i (removeSource i eng) = None \<and>
   i \<notin> fst ` set (sources (removeSource i eng)) \<and>
   (j \<noteq> i \<longrightarrow> getSource j (removeSource i eng) = getSource j eng)"
proof (intro conjI impI)
  show "stopSource i (stopSource i eng) = stopSource i eng" by (rule stopSource_idem)
  show "getSources (removeSource i eng) = map snd (AList.delete i (sources eng))"
    by (simp add: getSources_def removeSource_sources)
  show "getSource i (removeSource i eng) = None"
    by (simp add: getSource_def removeSource_sources AList.delete_conv')
  show "i \<notin> fst ` set (sources (removeSource i eng))"
    by (simp add: removeSource_sources AList.delete_notin_dom)
next
  assume "map_of (sources eng) i = None"
  then show "stopSource i eng = eng" "removeSource i eng = eng"
    by (simp_all add: stopSource_unknown removeSource_unknown)
next
  assume "map_of (sources eng) i = Some src \<and> node src = None"
  then show "stopSource i eng = eng" by (simp add: stopSource_no_route)
next
  assume k: "map_of (sources eng) i = Some src"
  show "removeSource i eng =
        (stopSource i eng)\<lparr>sources := AList.delete i (sources (stopSource i eng))\<rparr>"
    by (rule removeSource_known [OF k])
  show "hostLog (removeSource i eng) =
        (if node src = None then hostLog eng else hostLog eng @ [NodeStop i])"
    by (rule removeSource_hostLog [OF k])
next
  assume "j \<noteq> i"
  then show "getSource j (removeSource i eng) = getSource j eng"
    by (simp add: getSource_def removeSource_sources)
qed

theorem removeSource_stops_then_deletes_witness:
  "map_option node (getSource 1 playingSourceEngine) = Some (Some ()) \<and>
   hostLog playingSourceEngine = [NodeStart 1] \<and>
   hostLog (removeSource 1 playingSourceEngine) = [NodeStart 1, NodeStop 1] \<and>
   getSources (removeSource 1 playingSourceEngine) = [] \<and>
   getSource 1 (removeSource 1 playingSourceEngine) = None \<and>
   map_of (sources playingSourceEngine) 7 = None \<and>
   removeSource 7 playingSourceEngine = playingSourceEngine \<and>
   map_option node (getSource 1 oneSourceEngine) = Some None \<and>
   stopSource 1 oneSourceEngine = oneSourceEngine \<and>
   getSource 1 (removeSource 7 playingSourceEngine) = getSource 1 playingSourceEngine"
proof -
  let ?p = "\<lparr>source_id = 1, name = ''track'', buffer = 0, position = vec 10 0 0, volume = 1,
           locked = False, node = Some (), panner = Some (vec 10 0 0), gainNode = Some 1,
           src_isPlaying = True\<rparr>"
  let ?q = "\<lparr>source_id = 1, name = ''track'', buffer = 0, position = vec 10 0 0, volume = 1,
           locked = False, node = None, panner = None, gainNode = None,
           src_isPlaying = False\<rparr>"
  have kp: "map_of (sources playingSourceEngine) 1 = Some ?p"
    by (simp add: playingSourceEngine_sources)
  have up: "map_of (sources playingSourceEngine) 7 = None"
    by (simp add: playingSourceEngine_sources)
  have kq: "map_of (sources oneSourceEngine) 1 = Some ?q \<and> node ?q = None"
    by (simp add: oneSourceEngine_sources)
  note t1 = removeSource_stops_then_deletes [of playingSourceEngine 1 ?p 7]
  note t2 = removeSource_stops_then_deletes [of playingSourceEngine 7 ?p 1]
  note t3 = removeSource_stops_then_deletes [of oneSourceEngine 1 ?q 7]
  have n1: "map_option node (getSource 1 playingSourceEngine) = Some (Some ())"
    using kp by (simp add: getSource_def)
  have n2: "map_option node (getSource 1 oneSourceEngine) = Some None"
    using kq by (simp add: getSource_def)
  have d: "AList.delete 1 (sources playingSourceEngine) = []"
    by (simp add: playingSourceEngine_sources)
  have "hostLog (removeSource 1 playingSourceEngine) =
          (if node ?p = None then hostLog playingSourceEngine
           else hostLog playingSourceEngine @ [NodeStop 1])"
    using t1 kp by blast
  then have a: "hostLog (removeSource 1 playingSourceEngine) = [NodeStart 1, NodeStop 1]"
    by (simp add: playingSourceEngine_hostLog)
  have "getSources (removeSource 1 playingSourceEngine)
          = map snd (AList.delete 1 (sources playingSourceEngine))"
    using t1 by blast
  then have b: "getSources (removeSource 1 playingSourceEngine) = []" by (simp only: d list.map)
  have c: "getSource 1 (removeSource 1 playingSourceEngine) = None" using t1 by blast
  have e: "removeSource 7 playingSourceEngine = playingSourceEngine" using t2 up by blast
  have "(1::nat) \<noteq> 7" by simp
  then have f: "getSource 1 (removeSource 7 playingSourceEngine) = getSource 1 playingSourceEngine"
    using t2 by blast
  have g: "stopSource 1 oneSourceEngine = oneSourceEngine" using t3 kq by blast
  show ?thesis
    using a b c e f g up n1 n2 playingSourceEngine_hostLog by blast
qed

section \<open>Screen projection and the drag inverse\<close>

lemma vec_eta: "vec (vec_x p) (vec_y p) (vec_z p) = (p :: vec3)"
  by (simp add: vec_def)

lemma dragWorld_screenPosition:
  "scale vis \<noteq> 0 \<Longrightarrow> dragWorld vis (screenPosition vis p) = (vec_x p, vec_z p)"
  by (simp add: dragWorld_def screenPosition_def)

lemma dragWorld_shifted:
  "scale vis \<noteq> 0 \<Longrightarrow>
   dragWorld vis (fst (screenPosition vis p) + ex, snd (screenPosition vis p) + ey)
     = (vec_x p + ex / scale vis, vec_z p - ey / scale vis)"
  by (simp add: dragWorld_def screenPosition_def field_simps)

lemma hitTest_offset:
  "hitTest vis eng mx my ids = Some (i, dx, dy) \<Longrightarrow> map_of (sources eng) i = Some src \<Longrightarrow>
   dx = mx - fst (screenPosition vis (position src)) \<and>
   dy = my - snd (screenPosition vis (position src)) \<and>
   sqrt (dx * dx + dy * dy) < 30"
  by (induction ids) (auto simp add: Let_def split: option.splits if_splits)

lemma onMouseDown_hit:
  "hitTest vis eng mx my (vis_sources vis) = Some (i, dx, dy) \<Longrightarrow>
   onMouseDown False mx my eng vis =
     vis\<lparr>isDragging := True, draggedSource := Some i, dragOffset := (dx, dy),
         cursor := ''grabbing''\<rparr>"
  by (simp add: onMouseDown_def)

lemma dragWorld_frame:
  "dragWorld (vis\<lparr>isDragging := a, draggedSource := b, dragOffset := c, cursor := d\<rparr>) pt
     = dragWorld vis pt"
  by (simp add: dragWorld_def)

lemma onMouseMove_after_down:
  assumes s: "scale vis \<noteq> 0"
    and h: "hitTest vis eng mx my (vis_sources vis) = Some (i, dx, dy)"
    and k: "map_of (sources eng) i = Some src"
  shows "snd (onMouseMove False mx' my' (onMouseDown False mx my eng vis, eng)) =
           setSourcePosition i
             (vec (vec_x (position src) + (mx' - mx) / scale vis) (vec_y (position src))
                  (vec_z (position src) - (my' - my) / scale vis)) eng"
proof -
  let ?sp = "screenPosition vis (position src)"
  have o: "dx = mx - fst ?sp" "dy = my - snd ?sp"
    using hitTest_offset [OF h k] by simp_all
  have e: "(mx' - dx, my' - dy) = (fst ?sp + (mx' - mx), snd ?sp + (my' - my))"
    using o by simp
  have w: "dragWorld vis (mx' - dx, my' - dy) =
             (vec_x (position src) + (mx' - mx) / scale vis,
              vec_z (position src) - (my' - my) / scale vis)"
    unfolding e by (rule dragWorld_shifted [OF s])
  show ?thesis
    by (simp add: onMouseDown_hit [OF h] onMouseMove_def k Let_def dragWorld_frame w)
qed

text \<open>
  Claim C2 (inverse-transform round trip). For a scale other than 0, in both modes and for
  every stored player position, the drag inverse of \<open>onMouseMove\<close> applied to the screen
  position of a world position \<open>p\<close> gives back the x and z of \<open>p\<close>. At the handlers: when
  \<open>onMouseDown\<close> at \<open>(mx, my)\<close> picks a source, \<open>onMouseMove\<close> at \<open>(mx', my')\<close> writes the
  source's position moved by the pointer's displacement over the scale, with y carried
  through; at the same pointer position it writes the position the source already has.
  Numbers are reals: the equalities are exact, where the doubles of the program agree up
  to rounding.
\<close>

theorem drag_round_trip:
  assumes "scale vis \<noteq> 0"
  shows "dragWorld vis (screenPosition vis p) = (vec_x p, vec_z p) \<and>
         (hitTest vis eng mx my (vis_sources vis) = Some (i, dx, dy) \<and>
          map_of (sources eng) i = Some src \<longrightarrow>
            snd (onMouseMove False mx' my' (onMouseDown False mx my eng vis, eng)) =
              setSourcePosition i
                (vec (vec_x (position src) + (mx' - mx) / scale vis) (vec_y (position src))
                     (vec_z (position src) - (my' - my) / scale vis)) eng \<and>
            snd (onMouseMove False mx my (onMouseDown False mx my eng vis, eng)) =
              setSourcePosition i (position src) eng \<and>
            map_option position
              (getSource i (snd (onMouseMove False mx my (onMouseDown False mx my eng vis, eng))))
              = Some (position src))"
proof (intro conjI impI)
  show "dragWorld vis (screenPosition vis p) = (vec_x p, vec_z p)"
    by (rule dragWorld_screenPosition [OF assms])
next
  assume a: "hitTest vis eng mx my (vis_sources vis) = Some (i, dx, dy) \<and>
             map_of (sources eng) i = Some src"
  then have h: "hitTest vis eng mx my (vis_sources vis) = Some (i, dx, dy)"
    and k: "map_of (sources eng) i = Some src" by simp_all
  show "snd (onMouseMove False mx' my' (onMouseDown False mx my eng vis, eng)) =
              setSourcePosition i
                (vec (vec_x (position src) + (mx' - mx) / scale vis) (vec_y (position src))
                     (vec_z (position src) - (my' - my) / scale vis)) eng"
    by (rule onMouseMove_after_down [OF assms h k])
  show r: "snd (onMouseMove False mx my (onMouseDown False mx my eng vis, eng)) =
              setSourcePosition i (position src) eng"
    using onMouseMove_after_down [OF assms h k, of mx my] by (simp add: vec_eta)
  show "map_option position
          (getSource i (snd (onMouseMove False mx my (onMouseDown False mx my eng vis, eng))))
          = Some (position src)"
    unfolding r using k
    by (simp add: setSourcePosition_def getSource_def Let_def AList.update_conv')
qed

lemma authoringVis_eq:
  "authoringVis =
     \<lparr>width = 800, height = 600, centerX = 400, centerY = 300, scale = 20,
      viewMode = ''topdown'', compositionMode = False, positionsLocked = False,
      isDragging = False, draggedSource = None, dragOffset = (0, 0), cursor = '''',
      playerPos = vec 2 0 3, vis_sources = [1]\<rparr>"
  by (simp add: authoringVis_def render_def toggleCompositionMode_def
      visualization_constructor_def getSources_def oneSourceEngine_sources Let_def)

lemma authoringVis_hit:
  "hitTest authoringVis oneSourceEngine 560 360 (vis_sources authoringVis) = Some (1, 0, 0)"
  by (simp add: authoringVis_eq oneSourceEngine_sources screenPosition_def vec_def Let_def)

theorem drag_round_trip_witness:
  "scale authoringVis \<noteq> 0 \<and>
   screenPosition authoringVis (vec 10 0 0) = (560, 360) \<and>
   dragWorld authoringVis (560, 360) = (10, 0) \<and>
   hitTest authoringVis oneSourceEngine 560 360 (vis_sources authoringVis) = Some (1, 0, 0) \<and>
   map_option position (getSource 1 oneSourceEngine) = Some (vec 10 0 0) \<and>
   map_option position
     (getSource 1 (snd (onMouseMove False 560 360
        (onMouseDown False 560 360 oneSourceEngine authoringVis, oneSourceEngine))))
     = Some (vec 10 0 0) \<and>
   snd (onMouseMove False 540 380
        (onMouseDown False 560 360 oneSourceEngine authoringVis, oneSourceEngine))
     = setSourcePosition 1 (vec 9 0 (- 1)) oneSourceEngine"
proof -
  let ?src = "\<lparr>source_id = 1, name = ''track'', buffer = 0, position = vec 10 0 0, volume = 1,
           locked = False, node = None, panner = None, gainNode = None,
           src_isPlaying = False\<rparr>"
  have s: "scale authoringVis \<noteq> 0" by (simp add: authoringVis_eq)
  have k: "map_of (sources oneSourceEngine) 1 = Some ?src"
    by (simp add: oneSourceEngine_sources)
  have sp: "screenPosition authoringVis (vec 10 0 0) = (560, 360)"
    by (simp add: authoringVis_eq screenPosition_def vec_def)
  note t = drag_round_trip [OF s, of "vec 10 0 0" oneSourceEngine 560 360 1 0 0 ?src 540 380]
  have a: "dragWorld authoringVis (560, 360) = (10, 0)"
    using t sp by (simp add: vec_def)
  have hk: "hitTest authoringVis oneSourceEngine 560 360 (vis_sources authoringVis) = Some (1, 0, 0)
      \<and> map_of (sources oneSourceEngine) 1 = Some ?src"
    using authoringVis_hit k by blast
  have b: "map_option position
     (getSource 1 (snd (onMouseMove False 560 360
        (onMouseDown False 560 360 oneSourceEngine authoringVis, oneSourceEngine))))
     = Some (position ?src)"
    using t hk by blast
  have c: "snd (onMouseMove False 540 380
        (onMouseDown False 560 360 oneSourceEngine authoringVis, oneSourceEngine))
     = setSourcePosition 1
         (vec (vec_x (position ?src) + (540 - 560) / scale authoringVis) (vec_y (position ?src))
              (vec_z (position ?src) - (380 - 360) / scale authoringVis)) oneSourceEngine"
    using t hk by blast
  have v: "vec (vec_x (position ?src) + (540 - 560) / scale authoringVis) (vec_y (position ?src))
              (vec_z (position ?src) - (380 - 360) / scale authoringVis) = vec 9 0 (- 1)"
    by (simp add: authoringVis_eq vec_def)
  have g: "map_option position (getSource 1 oneSourceEngine) = Some (vec 10 0 0)"
    using k by (simp add: getSource_def)
  have c': "snd (onMouseMove False 540 380
        (onMouseDown False 560 360 oneSourceEngine authoringVis, oneSourceEngine))
     = setSourcePosition 1 (vec 9 0 (- 1)) oneSourceEngine"
    using c by (simp only: v)
  have b': "map_option position
     (getSource 1 (snd (onMouseMove False 560 360
        (onMouseDown False 560 360 oneSourceEngine authoringVis, oneSourceEngine))))
     = Some (vec 10 0 0)"
    using b by simp
  show ?thesis
    using s sp a authoringVis_hit g b' c' by blast
qed

text \<open>The scenario of the specification: in composition mode with scale 20 and centre
  \<open>(400, 300)\<close>, the screen points \<open>(500, 300)\<close> and \<open>(300, 300)\<close> are the world points with
  x 5 and x \<open>-5\<close>, z 0.\<close>

lemma dragWorld_scenario:
  "dragWorld (visualization_constructor 800 600) (500, 300) = (5, 0) \<and>
   dragWorld (visualization_constructor 800 600) (300, 300) = (- 5, 0)"
  by (simp add: dragWorld_def visualization_constructor_def)

section \<open>Azimuth and FOV culling\<close>

subsection \<open>The normalization loops\<close>

lemma wrapDown_le: "wrapDown a \<le> 180"
proof (induction a rule: wrapDown.induct)
  case (1 a)
  show ?case
  proof (cases "a > 180")
    case True
    then show ?thesis using "1.IH" by (simp add: wrapDown.simps [of a])
  next
    case False
    then show ?thesis by (simp add: wrapDown.simps [of a])
  qed
qed

lemma wrapDown_ge: "- 180 \<le> a \<Longrightarrow> - 180 \<le> wrapDown a"
proof (induction a rule: wrapDown.induct)
  case (1 a)
  show ?case
  proof (cases "a > 180")
    case True
    then show ?thesis using "1.IH" by (simp add: wrapDown.simps [of a])
  next
    case False
    then show ?thesis using "1.prems" by (simp add: wrapDown.simps [of a])
  qed
qed

lemma wrapDown_cong: "\<exists>k::int. wrapDown a = a + 360 * real_of_int k"
proof (induction a rule: wrapDown.induct)
  case (1 a)
  show ?case
  proof (cases "a > 180")
    case True
    then obtain k :: int where "wrapDown (a - 360) = a - 360 + 360 * real_of_int k"
      using "1.IH" by blast
    then have "wrapDown a = a + 360 * real_of_int (k - 1)"
      using True by (simp add: wrapDown.simps [of a])
    then show ?thesis by blast
  next
    case False
    then have "wrapDown a = a + 360 * real_of_int 0" by (simp add: wrapDown.simps [of a])
    then show ?thesis by blast
  qed
qed

lemma wrapUp_ge: "- 180 \<le> wrapUp a"
proof (induction a rule: wrapUp.induct)
  case (1 a)
  show ?case
  proof (cases "a < - 180")
    case True
    then show ?thesis using "1.IH" by (simp add: wrapUp.simps [of a])
  next
    case False
    then show ?thesis by (simp add: wrapUp.simps [of a])
  qed
qed

lemma wrapUp_le: "a \<le> 180 \<Longrightarrow> wrapUp a \<le> 180"
proof (induction a rule: wrapUp.induct)
  case (1 a)
  show ?case
  proof (cases "a < - 180")
    case True
    then show ?thesis using "1.IH" by (simp add: wrapUp.simps [of a])
  next
    case False
    then show ?thesis using "1.prems" by (simp add: wrapUp.simps [of a])
  qed
qed

lemma wrapUp_cong: "\<exists>k::int. wrapUp a = a + 360 * real_of_int k"
proof (induction a rule: wrapUp.induct)
  case (1 a)
  show ?case
  proof (cases "a < - 180")
    case True
    then obtain k :: int where "wrapUp (a + 360) = a + 360 + 360 * real_of_int k"
      using "1.IH" by blast
    then have "wrapUp a = a + 360 * real_of_int (k + 1)"
      using True by (simp add: wrapUp.simps [of a])
    then show ?thesis by blast
  next
    case False
    then have "wrapUp a = a + 360 * real_of_int 0" by (simp add: wrapUp.simps [of a])
    then show ?thesis by blast
  qed
qed

lemma wrap_id: "- 180 \<le> a \<Longrightarrow> a \<le> 180 \<Longrightarrow> wrapUp (wrapDown a) = a"
  by (simp add: wrapDown.simps [of a] wrapUp.simps [of a])

lemma viewAzimuth_range:
  "- 180 \<le> viewAzimuth rx rz facing \<and> viewAzimuth rx rz facing \<le> 180"
  by (simp add: viewAzimuth_def Let_def wrapUp_ge wrapUp_le wrapDown_le)

lemma viewAzimuth_cong:
  "\<exists>k::int. viewAzimuth rx rz facing = atan2 rx rz * (180 / pi) - facing + 360 * real_of_int k"
proof -
  let ?a = "atan2 rx rz * (180 / pi) - facing"
  obtain k :: int where k: "wrapDown ?a = ?a + 360 * real_of_int k"
    using wrapDown_cong by blast
  obtain l :: int where l: "wrapUp (wrapDown ?a) = wrapDown ?a + 360 * real_of_int l"
    using wrapUp_cong by blast
  have "viewAzimuth rx rz facing = ?a + 360 * real_of_int (k + l)"
    using k l by (simp add: viewAzimuth_def Let_def)
  then show ?thesis by blast
qed

lemma atan2_range: "- pi < atan2 b a \<and> atan2 b a \<le> pi"
proof -
  have l: "- (pi / 2) < arctan (b / a)" and u: "arctan (b / a) < pi / 2"
    by (rule arctan_lbound, rule arctan_ubound)
  have p: "0 < pi" by simp
  show ?thesis
  proof (cases "a > 0")
    case True
    then have "atan2 b a = arctan (b / a)" by (simp add: atan2_def)
    then show ?thesis using l u p by linarith
  next
    case False
    show ?thesis
    proof (cases "a < 0")
      case True
      show ?thesis
      proof (cases "b \<ge> 0")
        case True
        with \<open>a < 0\<close> have "b / a \<le> 0" by (simp add: divide_nonneg_neg)
        then have "arctan (b / a) \<le> 0" by (simp add: arctan_le_zero_iff)
        moreover have "atan2 b a = arctan (b / a) + pi"
          using \<open>a < 0\<close> True by (simp add: atan2_def)
        ultimately show ?thesis using l p by linarith
      next
        case False
        with \<open>a < 0\<close> have "0 < b / a" by (simp add: divide_neg_neg)
        then have "0 < arctan (b / a)" by (simp add: zero_less_arctan_iff)
        moreover have "atan2 b a = arctan (b / a) - pi"
          using \<open>a < 0\<close> False by (simp add: atan2_def)
        ultimately show ?thesis using u p by linarith
      qed
    next
      case False
      then have "atan2 b a = pi / 2 \<or> atan2 b a = - (pi / 2) \<or> atan2 b a = 0"
        using \<open>\<not> a > 0\<close> by (simp add: atan2_def)
      then show ?thesis using p by linarith
    qed
  qed
qed

subsection \<open>FOV culling\<close>

lemma drawSource_BehindViewer_iff:
  "drawSource vis src pp facing = BehindViewer \<longleftrightarrow>
     \<not> sqrt ((vec_x (position src) - vec_x pp) * (vec_x (position src) - vec_x pp) +
             (vec_z (position src) - vec_z pp) * (vec_z (position src) - vec_z pp)) < 0.001 \<and>
     viewMode vis = ''firstperson'' \<and> \<not> positionsLocked vis \<and>
     \<bar>viewAzimuth (vec_x (position src) - vec_x pp) (vec_z (position src) - vec_z pp) facing\<bar> > 90"
  by (simp add: drawSource_def Let_def)

lemma positionsLocked_never_assigned:
  "\<not> positionsLocked (visualization_constructor w h) \<and>
   positionsLocked (resize w h vis) = positionsLocked vis \<and>
   positionsLocked (snd (toggleViewMode vis)) = positionsLocked vis \<and>
   positionsLocked (setViewMode m vis) = positionsLocked vis \<and>
   positionsLocked (snd (toggleCompositionMode vis)) = positionsLocked vis \<and>
   positionsLocked (onMouseDown pl mx my eng vis) = positionsLocked vis \<and>
   positionsLocked (fst (onMouseMove pl mx my (vis, eng))) = positionsLocked vis \<and>
   positionsLocked (onMouseUp vis) = positionsLocked vis \<and>
   positionsLocked (fst (render pp srcs facing vis)) = positionsLocked vis"
  by (simp add: visualization_constructor_def resize_def toggleViewMode_def setViewMode_def
      toggleCompositionMode_def onMouseDown_def onMouseMove_def onMouseUp_def render_def Let_def
      split: option.splits prod.splits)

lemma sqrt_25: "sqrt 25 = 5"
  by (rule real_sqrt_unique) simp_all

lemma sqrt_100: "sqrt 100 = 10"
  by (rule real_sqrt_unique) simp_all

lemma viewAzimuth_behind: "viewAzimuth 0 (- 5) 0 = 180"
  by (simp add: viewAzimuth_def atan2_def Let_def wrap_id)

lemma viewAzimuth_right: "viewAzimuth 10 0 0 = 90"
  by (simp add: viewAzimuth_def atan2_def Let_def wrap_id)

lemma viewAzimuth_minus_180: "viewAzimuth 0 1 180 = - 180"
  by (simp add: viewAzimuth_def atan2_def Let_def wrap_id)

lemma firstPersonAuthoringVis_eq:
  "firstPersonAuthoringVis =
     \<lparr>width = 800, height = 600, centerX = 400, centerY = 300, scale = 20,
      viewMode = ''firstperson'', compositionMode = False, positionsLocked = False,
      isDragging = False, draggedSource = None, dragOffset = (0, 0), cursor = '''',
      playerPos = vec 0 0 0, vis_sources = []\<rparr>"
  by (simp add: firstPersonAuthoringVis_def toggleViewMode_def toggleCompositionMode_def
      visualization_constructor_def Let_def)

lemma firstPersonVis_eq:
  "firstPersonVis =
     \<lparr>width = 800, height = 600, centerX = 400, centerY = 300, scale = 20,
      viewMode = ''firstperson'', compositionMode = True, positionsLocked = False,
      isDragging = False, draggedSource = None, dragOffset = (0, 0), cursor = '''',
      playerPos = vec 0 0 0, vis_sources = []\<rparr>"
  by (simp add: firstPersonVis_def toggleViewMode_def visualization_constructor_def Let_def)

lemma distance_behind:
  "sqrt ((vec_x (position (sourceAt (vec 0 0 (- 5)))) - vec_x (vec 0 0 0)) *
         (vec_x (position (sourceAt (vec 0 0 (- 5)))) - vec_x (vec 0 0 0)) +
         (vec_z (position (sourceAt (vec 0 0 (- 5)))) - vec_z (vec 0 0 0)) *
         (vec_z (position (sourceAt (vec 0 0 (- 5)))) - vec_z (vec 0 0 0))) = 5"
  by (simp add: sourceAt_def vec_def sqrt_25)

lemma distance_right:
  "sqrt ((vec_x (position (sourceAt (vec 10 0 0))) - vec_x (vec 0 0 0)) *
         (vec_x (position (sourceAt (vec 10 0 0))) - vec_x (vec 0 0 0)) +
         (vec_z (position (sourceAt (vec 10 0 0))) - vec_z (vec 0 0 0)) *
         (vec_z (position (sourceAt (vec 10 0 0))) - vec_z (vec 0 0 0))) = 10"
  by (simp add: sourceAt_def vec_def sqrt_100)

lemma azimuth_behind:
  "viewAzimuth (vec_x (position (sourceAt (vec 0 0 (- 5)))) - vec_x (vec 0 0 0))
               (vec_z (position (sourceAt (vec 0 0 (- 5)))) - vec_z (vec 0 0 0)) 0 = 180"
  by (simp add: sourceAt_def vec_def viewAzimuth_behind)

lemma azimuth_right:
  "viewAzimuth (vec_x (position (sourceAt (vec 10 0 0))) - vec_x (vec 0 0 0))
               (vec_z (position (sourceAt (vec 10 0 0))) - vec_z (vec 0 0 0)) 0 = 90"
  by (simp add: sourceAt_def vec_def viewAzimuth_right)

lemma drawSource_authoring_behind:
  "drawSource firstPersonAuthoringVis (sourceAt (vec 0 0 (- 5))) (vec 0 0 0) 0 = BehindViewer"
  by (simp only: drawSource_BehindViewer_iff distance_behind azimuth_behind)
     (simp add: firstPersonAuthoringVis_eq)

text \<open>
  Claim C4 (FOV culling only in first-person view and composition mode), as stated, fails:
  in first-person view and authoring mode a source straight behind the listener is
  culled by azimuth.
\<close>

theorem fov_culling_in_authoring_counterexample:
  "viewMode firstPersonAuthoringVis = ''firstperson'' \<and>
   \<not> compositionMode firstPersonAuthoringVis \<and>
   drawSource firstPersonAuthoringVis (sourceAt (vec 0 0 (- 5))) (vec 0 0 0) 0 = BehindViewer"
  by (simp add: drawSource_authoring_behind) (simp add: firstPersonAuthoringVis_eq)

text \<open>
  Claim C4, amended. The FOV test of \<open>drawSource\<close> reads the view mode and the property
  \<open>positionsLocked\<close>, which nothing assigns (lemma \<open>positionsLocked_never_assigned\<close>);
  it does not read the reference-frame mode. With \<open>positionsLocked\<close> unset, a source is
  culled by azimuth exactly when the view mode is first-person, the source is not at the
  listener's position and the absolute azimuth exceeds 90; so no source is culled in
  top-down view, and setting the reference-frame mode either way does not change whether a
  source is culled.
\<close>

theorem fov_culling_iff_firstperson:
  assumes "\<not> positionsLocked vis"
  shows "(drawSource vis src pp facing = BehindViewer \<longleftrightarrow>
            viewMode vis = ''firstperson'' \<and>
            \<not> sqrt ((vec_x (position src) - vec_x pp) * (vec_x (position src) - vec_x pp) +
                    (vec_z (position src) - vec_z pp) * (vec_z (position src) - vec_z pp)) < 0.001 \<and>
            \<bar>viewAzimuth (vec_x (position src) - vec_x pp) (vec_z (position src) - vec_z pp)
               facing\<bar> > 90) \<and>
         (drawSource (vis\<lparr>compositionMode := b\<rparr>) src pp facing = BehindViewer \<longleftrightarrow>
            drawSource vis src pp facing = BehindViewer)"
  using assms by (auto simp add: drawSource_BehindViewer_iff)

theorem fov_culling_iff_firstperson_witness:
  "\<not> positionsLocked firstPersonAuthoringVis \<and>
   viewMode firstPersonAuthoringVis = ''firstperson'' \<and>
   drawSource firstPersonAuthoringVis (sourceAt (vec 0 0 (- 5))) (vec 0 0 0) 0 = BehindViewer \<and>
   drawSource (firstPersonAuthoringVis\<lparr>compositionMode := True\<rparr>)
      (sourceAt (vec 0 0 (- 5))) (vec 0 0 0) 0 = BehindViewer \<and>
   \<not> positionsLocked (visualization_constructor 800 600) \<and>
   viewMode (visualization_constructor 800 600) = ''topdown'' \<and>
   drawSource (visualization_constructor 800 600) (sourceAt (vec 0 0 (- 5))) (vec 0 0 0) 0
     \<noteq> BehindViewer"
proof -
  have p1: "\<not> positionsLocked firstPersonAuthoringVis"
    and m1: "viewMode firstPersonAuthoringVis = ''firstperson''"
    by (simp_all add: firstPersonAuthoringVis_eq)
  have p2: "\<not> positionsLocked (visualization_constructor 800 600)"
    and m2: "viewMode (visualization_constructor 800 600) = ''topdown''"
    by (simp_all add: visualization_constructor_def)
  note t1 = fov_culling_iff_firstperson [OF p1, of "sourceAt (vec 0 0 (- 5))" "vec 0 0 0" 0 True]
  note t2 = fov_culling_iff_firstperson [OF p2, of "sourceAt (vec 0 0 (- 5))" "vec 0 0 0" 0 True]
  have a: "drawSource firstPersonAuthoringVis (sourceAt (vec 0 0 (- 5))) (vec 0 0 0) 0 = BehindViewer"
    using t1 m1 by (simp only: distance_behind azimuth_behind) simp
  have b: "drawSource (firstPersonAuthoringVis\<lparr>compositionMode := True\<rparr>)
      (sourceAt (vec 0 0 (- 5))) (vec 0 0 0) 0 = BehindViewer"
    using t1 a by blast
  have "''topdown'' \<noteq> ''firstperson''" by simp
  then have c: "drawSource (visualization_constructor 800 600) (sourceAt (vec 0 0 (- 5))) (vec 0 0 0) 0
     \<noteq> BehindViewer"
    using t2 m2 by metis
  show ?thesis using p1 m1 a b p2 m2 c by blast
qed

text \<open>
  Claim C5 (azimuth and FOV boundary), as stated, fails in the range: the second loop runs
  while the azimuth is below \<open>-180\<close>, so \<open>-180\<close> itself is a result. With the source
  straight ahead on the z axis and a yaw of 180 the azimuth is \<open>-180\<close>, outside \<open>(-180, 180]\<close>.
\<close>

theorem viewAzimuth_open_range_counterexample:
  "viewAzimuth 0 1 180 = - 180 \<and>
   \<not> (- 180 < viewAzimuth 0 1 180 \<and> viewAzimuth 0 1 180 \<le> 180)"
  by (simp add: viewAzimuth_minus_180)

text \<open>
  Claim C5, amended. The view-relative azimuth is \<open>atan2(relativeX, relativeZ)\<close> in degrees
  less the yaw, put through the two loops; the result lies in the closed range
  \<open>[-180, 180]\<close> and differs from the unnormalized angle by a multiple of 360. Under FOV
  culling (first-person view, \<open>positionsLocked\<close> unset) a source away from the listener's
  position is kept by the FOV test exactly when the absolute azimuth is at most 90: at
  exactly 90 or \<open>-90\<close> it is kept, above 90 it is culled.
\<close>

theorem viewAzimuth_closed_range_and_fov:
  "viewAzimuth rx rz facing =
     wrapUp (wrapDown (atan2 rx rz * (180 / pi) - facing)) \<and>
   - 180 \<le> viewAzimuth rx rz facing \<and> viewAzimuth rx rz facing \<le> 180 \<and>
   (\<exists>k::int. viewAzimuth rx rz facing =
                atan2 rx rz * (180 / pi) - facing + 360 * real_of_int k) \<and>
   (viewMode vis = ''firstperson'' \<and> \<not> positionsLocked vis \<and>
    \<not> sqrt ((vec_x (position src) - vec_x pp) * (vec_x (position src) - vec_x pp) +
            (vec_z (position src) - vec_z pp) * (vec_z (position src) - vec_z pp)) < 0.001 \<longrightarrow>
      (drawSource vis src pp facing \<noteq> BehindViewer \<longleftrightarrow>
         \<bar>viewAzimuth (vec_x (position src) - vec_x pp) (vec_z (position src) - vec_z pp)
            facing\<bar> \<le> 90))"
proof (intro conjI impI)
  show "viewAzimuth rx rz facing = wrapUp (wrapDown (atan2 rx rz * (180 / pi) - facing))"
    by (simp add: viewAzimuth_def Let_def)
  show "- 180 \<le> viewAzimuth rx rz facing" "viewAzimuth rx rz facing \<le> 180"
    using viewAzimuth_range by simp_all
  show "\<exists>k::int. viewAzimuth rx rz facing =
                atan2 rx rz * (180 / pi) - facing + 360 * real_of_int k"
    by (rule viewAzimuth_cong)
next
  assume "viewMode vis = ''firstperson'' \<and> \<not> positionsLocked vis \<and>
    \<not> sqrt ((vec_x (position src) - vec_x pp) * (vec_x (position src) - vec_x pp) +
            (vec_z (position src) - vec_z pp) * (vec_z (position src) - vec_z pp)) < 0.001"
  then show "drawSource vis src pp facing \<noteq> BehindViewer \<longleftrightarrow>
         \<bar>viewAzimuth (vec_x (position src) - vec_x pp) (vec_z (position src) - vec_z pp)
            facing\<bar> \<le> 90"
    by (simp add: drawSource_BehindViewer_iff not_less)
qed

lemma drawSource_scenario:
  "drawSource (visualization_constructor 800 600) (sourceAt (vec 10 0 0)) (vec 0 0 0) 0
     = Drawn 600 300 16.5 \<and>
   drawSource firstPersonVis (sourceAt (vec 10 0 0)) (vec 0 0 0) 0 = Drawn 600 300 16.5"
  by (simp add: drawSource_def Let_def distance_right azimuth_right)
     (simp add: firstPersonVis_eq visualization_constructor_def sourceAt_def vec_def)

theorem viewAzimuth_closed_range_and_fov_witness:
  "viewMode firstPersonVis = ''firstperson'' \<and> \<not> positionsLocked firstPersonVis \<and>
   viewAzimuth 10 0 0 = 90 \<and>
   drawSource firstPersonVis (sourceAt (vec 10 0 0)) (vec 0 0 0) 0 \<noteq> BehindViewer \<and>
   viewAzimuth 0 (- 5) 0 = 180 \<and>
   drawSource firstPersonVis (sourceAt (vec 0 0 (- 5))) (vec 0 0 0) 0 = BehindViewer \<and>
   viewAzimuth 0 1 180 = - 180 \<and> - 180 \<le> viewAzimuth 0 1 180"
proof -
  have m: "viewMode firstPersonVis = ''firstperson''" and p: "\<not> positionsLocked firstPersonVis"
    by (simp_all add: firstPersonVis_eq)
  note t1 = viewAzimuth_closed_range_and_fov
      [of 10 0 0 firstPersonVis "sourceAt (vec 10 0 0)" "vec 0 0 0"]
  note t2 = viewAzimuth_closed_range_and_fov
      [of 0 "- 5" 0 firstPersonVis "sourceAt (vec 0 0 (- 5))" "vec 0 0 0"]
  note t3 = viewAzimuth_closed_range_and_fov
      [of 0 1 180 firstPersonVis "sourceAt (vec 0 0 (- 5))" "vec 0 0 0"]
  have a: "drawSource firstPersonVis (sourceAt (vec 10 0 0)) (vec 0 0 0) 0 \<noteq> BehindViewer"
    using t1 m p by (simp only: distance_right azimuth_right) simp
  have b: "drawSource firstPersonVis (sourceAt (vec 0 0 (- 5))) (vec 0 0 0) 0 = BehindViewer"
    using t2 m p by (simp only: distance_behind azimuth_behind) simp
  have c: "- 180 \<le> viewAzimuth 0 1 180" using t3 by blast
  show ?thesis
    using m p a b c viewAzimuth_right viewAzimuth_behind viewAzimuth_minus_180 by blast
qed

section \<open>The spatializer offset\<close>

lemma updateSourcePosition_eq:
  "updateSourcePosition eng pos =
     vec (vec_x pos - vec_x (listener eng)) (vec_y pos - vec_y (listener eng))
         (vec_z pos - vec_z (listener eng))"
  by (simp add: updateSourcePosition_def Let_def)

lemma updateSourcePosition_listener:
  "listener e1 = listener e2 \<Longrightarrow> updateSourcePosition e1 = updateSourcePosition e2"
  by (rule ext) (simp add: updateSourcePosition_def)

lemma list_all_update:
  "list_all P al \<Longrightarrow> P (k, v) \<Longrightarrow> list_all P (AList.update k v al)"
  by (induction al) auto

lemma pannerConsistent_update:
  assumes "pannerConsistent eng"
    and "case panner v of None \<Rightarrow> True | Some q \<Rightarrow> q = updateSourcePosition eng (position v)"
    and "listener eng1 = listener eng"
    and "sources eng1 = AList.update k v (sources eng)"
  shows "pannerConsistent eng1"
proof -
  have e: "updateSourcePosition eng1 = updateSourcePosition eng"
    by (rule updateSourcePosition_listener [OF assms(3)])
  let ?P = "\<lambda>(k, src). case panner src of None \<Rightarrow> True
                         | Some q \<Rightarrow> q = updateSourcePosition eng (position src)"
  have "list_all ?P (sources eng)" using assms(1) by (simp add: pannerConsistent_def)
  moreover have "?P (k, v)" using assms(2) by simp
  ultimately have "list_all ?P (AList.update k v (sources eng))" by (rule list_all_update)
  then show ?thesis unfolding pannerConsistent_def assms(4) e .
qed

lemma pannerConsistent_setSourcePosition:
  assumes "pannerConsistent eng"
  shows "pannerConsistent (setSourcePosition i p eng)"
proof (cases "map_of (sources eng) i")
  case None
  then show ?thesis using assms by (simp add: setSourcePosition_def)
next
  case (Some src)
  show ?thesis
    by (rule pannerConsistent_update [OF assms, where k = i and
          v = "if panner src \<noteq> None
               then src\<lparr>position := p, panner := Some (updateSourcePosition eng p)\<rparr>
               else src\<lparr>position := p\<rparr>"])
       (auto simp add: setSourcePosition_def Some Let_def)
qed

lemma pannerConsistent_startSource:
  assumes "pannerConsistent eng"
  shows "pannerConsistent (startSource i eng)"
proof (cases "map_of (sources eng) i")
  case None
  then show ?thesis using assms by (simp add: startSource_def)
next
  case (Some src)
  show ?thesis
  proof (cases "audioContext eng")
    case False
    then show ?thesis using assms Some by (simp add: startSource_def)
  next
    case True
    show ?thesis
      by (rule pannerConsistent_update [OF assms, where k = i and
            v = "src\<lparr>node := Some (), gainNode := Some (volume src),
                     panner := Some (updateSourcePosition eng (position src)),
                     src_isPlaying := True\<rparr>"])
         (auto simp add: startSource_def Some True Let_def)
  qed
qed

lemma pannerConsistent_stopSource:
  assumes "pannerConsistent eng"
  shows "pannerConsistent (stopSource i eng)"
proof (cases "map_of (sources eng) i")
  case None
  then show ?thesis using assms by (simp add: stopSource_def)
next
  case (Some src)
  show ?thesis
  proof (cases "node src = None")
    case True
    then show ?thesis using assms Some by (simp add: stopSource_def)
  next
    case False
    show ?thesis
      by (rule pannerConsistent_update [OF assms, where k = i and
            v = "src\<lparr>node := None, gainNode := None, panner := None, src_isPlaying := False\<rparr>"])
         (auto simp add: stopSource_def Some False)
  qed
qed

lemma pannerConsistent_createSource:
  assumes "pannerConsistent eng"
  shows "pannerConsistent (snd (createSource b n p eng))"
  by (rule pannerConsistent_update [OF assms, where k = "nextSourceId eng" and
        v = "\<lparr>source_id = nextSourceId eng, name = n, buffer = b, position = p,
                 volume = 1, locked = False, node = None, panner = None, gainNode = None,
                 src_isPlaying = False\<rparr>"])
     (auto simp add: createSource_def Let_def)

lemma pannerConsistent_updateListenerPosition:
  "pannerConsistent (updateListenerPosition q eng)"
  by (auto simp add: pannerConsistent_def updateListenerPosition_def Let_def list_all_iff
      updateSourcePosition_def split: option.splits)

lemma pannerConsistent_constructor: "pannerConsistent engine_constructor"
  by (simp add: pannerConsistent_def engine_constructor_def)

text \<open>
  Claim C6 (mode independence of audio). The offset written to a panner is the source
  position less the engine's listener position, component by component; the reference-frame
  mode is no input of it. The click on the mode toggle flips \<open>compositionMode\<close> of the
  visualization and leaves the engine and the movement controller as they are, so the
  offsets held by the panners are the same before and after. Every panner holds the
  offset of its source from the listener: this holds for a new engine, after any
  \<open>updateListenerPosition\<close>, and is kept by \<open>createSource\<close>, \<open>startSource\<close>, \<open>stopSource\<close> and
  \<open>setSourcePosition\<close>. After \<open>movePlayer\<close> the engine's listener position is the player's
  position.
\<close>

theorem audio_offset_mode_independent:
  "updateSourcePosition eng pos =
     vec (vec_x pos - vec_x (listener eng)) (vec_y pos - vec_y (listener eng))
         (vec_z pos - vec_z (listener eng)) \<and>
   audioEngine (modeToggleClick app) = audioEngine app \<and>
   movement (modeToggleClick app) = movement app \<and>
   compositionMode (visualization (modeToggleClick app))
     = (\<not> compositionMode (visualization app)) \<and>
   pannerOffsets (audioEngine (modeToggleClick app)) = pannerOffsets (audioEngine app) \<and>
   pannerConsistent engine_constructor \<and>
   pannerConsistent (updateListenerPosition q eng) \<and>
   (pannerConsistent eng \<longrightarrow>
      pannerConsistent (snd (createSource b n pos eng)) \<and>
      pannerConsistent (startSource i eng) \<and>
      pannerConsistent (stopSource i eng) \<and>
      pannerConsistent (setSourcePosition i pos eng)) \<and>
   listener (snd (movePlayer dx dy dz (mc, eng))) = player (fst (movePlayer dx dy dz (mc, eng)))"
proof (intro conjI impI)
  show "updateSourcePosition eng pos =
     vec (vec_x pos - vec_x (listener eng)) (vec_y pos - vec_y (listener eng))
         (vec_z pos - vec_z (listener eng))"
    by (rule updateSourcePosition_eq)
  show "audioEngine (modeToggleClick app) = audioEngine app"
    "movement (modeToggleClick app) = movement app"
    "compositionMode (visualization (modeToggleClick app)) = (\<not> compositionMode (visualization app))"
    "pannerOffsets (audioEngine (modeToggleClick app)) = pannerOffsets (audioEngine app)"
    by (simp_all add: modeToggleClick_def toggleCompositionMode_def)
  show "pannerConsistent engine_constructor" by (rule pannerConsistent_constructor)
  show "pannerConsistent (updateListenerPosition q eng)"
    by (rule pannerConsistent_updateListenerPosition)
  show "listener (snd (movePlayer dx dy dz (mc, eng))) = player (fst (movePlayer dx dy dz (mc, eng)))"
    by (rule movePlayer_listener)
next
  assume c: "pannerConsistent eng"
  show "pannerConsistent (snd (createSource b n pos eng))"
    by (rule pannerConsistent_createSource [OF c])
  show "pannerConsistent (startSource i eng)" by (rule pannerConsistent_startSource [OF c])
  show "pannerConsistent (stopSource i eng)" by (rule pannerConsistent_stopSource [OF c])
  show "pannerConsistent (setSourcePosition i pos eng)"
    by (rule pannerConsistent_setSourcePosition [OF c])
qed

lemma playingSourceEngine_listener: "listener playingSourceEngine = vec 0 0 0"
  by (simp add: playingSourceEngine_def startSource_def init_def oneSourceEngine_def
      createSource_def engine_constructor_def Let_def)

lemma playingSourceEngine_consistent: "pannerConsistent playingSourceEngine"
  by (simp add: pannerConsistent_def playingSourceEngine_sources updateSourcePosition_def
      playingSourceEngine_listener Let_def)
     (simp add: vec_def)

theorem audio_offset_mode_independent_witness:
  "pannerConsistent playingSourceEngine \<and>
   pannerConsistent (setSourcePosition 1 (vec 5 0 0) playingSourceEngine) \<and>
   pannerOffsets playingSourceEngine = [(1, Some (vec 10 0 0))] \<and>
   pannerOffsets (audioEngine (modeToggleClick
      \<lparr>audioEngine = playingSourceEngine, movement = movement_constructor,
       visualization = visualization_constructor 800 600\<rparr>)) = [(1, Some (vec 10 0 0))] \<and>
   updateSourcePosition (updateListenerPosition (vec 2 0 3) playingSourceEngine) (vec 10 0 0)
     = vec 8 0 (- 3)"
proof -
  let ?app = "\<lparr>audioEngine = playingSourceEngine, movement = movement_constructor,
       visualization = visualization_constructor 800 600\<rparr>"
  note t = audio_offset_mode_independent
      [of "updateListenerPosition (vec 2 0 3) playingSourceEngine" "vec 10 0 0" ?app]
  note u = audio_offset_mode_independent [of playingSourceEngine "vec 5 0 0" ?app _ _ _ 1]
  have o: "pannerOffsets playingSourceEngine = [(1, Some (vec 10 0 0))]"
    by (simp add: pannerOffsets_def playingSourceEngine_sources)
  have a: "pannerConsistent (setSourcePosition 1 (vec 5 0 0) playingSourceEngine)"
    using u playingSourceEngine_consistent by blast
  have "pannerOffsets (audioEngine (modeToggleClick ?app)) = pannerOffsets (audioEngine ?app)"
    using t by blast
  then have b: "pannerOffsets (audioEngine (modeToggleClick ?app)) = [(1, Some (vec 10 0 0))]"
    using o by simp
  have l: "listener (updateListenerPosition (vec 2 0 3) playingSourceEngine) = vec 2 0 3"
    by (simp add: updateListenerPosition_def Let_def)
  have "updateSourcePosition (updateListenerPosition (vec 2 0 3) playingSourceEngine) (vec 10 0 0)
     = vec (vec_x (vec 10 0 0) - vec_x (listener (updateListenerPosition (vec 2 0 3) playingSourceEngine)))
           (vec_y (vec 10 0 0) - vec_y (listener (updateListenerPosition (vec 2 0 3) playingSourceEngine)))
           (vec_z (vec 10 0 0) - vec_z (listener (updateListenerPosition (vec 2 0 3) playingSourceEngine)))"
    using t by blast
  then have c: "updateSourcePosition (updateListenerPosition (vec 2 0 3) playingSourceEngine) (vec 10 0 0)
     = vec 8 0 (- 3)"
    unfolding l by (simp add: vec_def)
  show ?thesis using playingSourceEngine_consistent a o b c by blast
qed

section \<open>Coordinate entry\<close>

lemma submitSourcePosition_unknown:
  "getSource i eng = None \<Longrightarrow> submitSourcePosition pf i inp eng = (None, eng)"
  by (simp add: submitSourcePosition_def)

lemma submitSourcePosition_invalid:
  "getSource i eng = Some src \<Longrightarrow>
   pf (input_x inp) = None \<or> pf (input_y inp) = None \<or> pf (input_z inp) = None \<Longrightarrow>
   submitSourcePosition pf i inp eng =
     (Some ''Please enter valid numbers for all coordinates'', eng)"
  by (auto simp add: submitSourcePosition_def split: option.splits)

lemma submitSourcePosition_valid:
  "getSource i eng = Some src \<Longrightarrow>
   pf (input_x inp) = Some a \<Longrightarrow> pf (input_y inp) = Some b \<Longrightarrow> pf (input_z inp) = Some c \<Longrightarrow>
   submitSourcePosition pf i inp eng = (None, setSourcePosition i (vec a b c) eng)"
  by (simp add: submitSourcePosition_def)

text \<open>
  Claim C9 (coordinate-entry atomicity). For a known source: when \<open>parseFloat\<close> gives \<open>NaN\<close>
  for any of the three fields, the alert is shown and the engine is returned as it was (no
  axis is written); when all three parse, the engine is changed by the one call
  \<open>setSourcePosition\<close> with the three parsed values, which then are the source's position.
  For an unknown source nothing happens.
\<close>

theorem submitSourcePosition_atomic:
  "(getSource i eng = Some src \<and>
    (pf (input_x inp) = None \<or> pf (input_y inp) = None \<or> pf (input_z inp) = None) \<longrightarrow>
      submitSourcePosition pf i inp eng =
        (Some ''Please enter valid numbers for all coordinates'', eng)) \<and>
   (getSource i eng = Some src \<and>
    pf (input_x inp) = Some a \<and> pf (input_y inp) = Some b \<and> pf (input_z inp) = Some c \<longrightarrow>
      submitSourcePosition pf i inp eng = (None, setSourcePosition i (vec a b c) eng) \<and>
      map_option position (getSource i (snd (submitSourcePosition pf i inp eng)))
        = Some (vec a b c)) \<and>
   (getSource i eng = None \<longrightarrow> submitSourcePosition pf i inp eng = (None, eng))"
proof (intro conjI impI)
  assume "getSource i eng = Some src \<and>
    (pf (input_x inp) = None \<or> pf (input_y inp) = None \<or> pf (input_z inp) = None)"
  then show "submitSourcePosition pf i inp eng =
        (Some ''Please enter valid numbers for all coordinates'', eng)"
    using submitSourcePosition_invalid by blast
next
  assume v: "getSource i eng = Some src \<and>
    pf (input_x inp) = Some a \<and> pf (input_y inp) = Some b \<and> pf (input_z inp) = Some c"
  then show w: "submitSourcePosition pf i inp eng = (None, setSourcePosition i (vec a b c) eng)"
    using submitSourcePosition_valid by blast
  from v have "map_of (sources eng) i = Some src" by (simp add: getSource_def)
  then show "map_option position (getSource i (snd (submitSourcePosition pf i inp eng)))
        = Some (vec a b c)"
    unfolding w by (simp add: setSourcePosition_def getSource_def Let_def AList.update_conv')
next
  assume "getSource i eng = None"
  then show "submitSourcePosition pf i inp eng = (None, eng)"
    by (rule submitSourcePosition_unknown)
qed

theorem submitSourcePosition_atomic_witness:
  "parseFloatTable ''abc'' = None \<and>
   submitSourcePosition parseFloatTable 1 \<lparr>input_x = ''1.5'', input_y = ''abc'', input_z = ''2''\<rparr>
       oneSourceEngine
     = (Some ''Please enter valid numbers for all coordinates'', oneSourceEngine) \<and>
   map_option position (getSource 1 oneSourceEngine) = Some (vec 10 0 0) \<and>
   map_option position (getSource 1 (snd (submitSourcePosition parseFloatTable 1
       \<lparr>input_x = ''1.5'', input_y = ''-3'', input_z = ''2''\<rparr> oneSourceEngine)))
     = Some (vec 1.5 (- 3) 2) \<and>
   getSource 7 oneSourceEngine = None \<and>
   submitSourcePosition parseFloatTable 7 \<lparr>input_x = ''1.5'', input_y = ''-3'', input_z = ''2''\<rparr>
       oneSourceEngine = (None, oneSourceEngine)"
proof -
  let ?src = "\<lparr>source_id = 1, name = ''track'', buffer = 0, position = vec 10 0 0, volume = 1,
           locked = False, node = None, panner = None, gainNode = None,
           src_isPlaying = False\<rparr>"
  let ?bad = "\<lparr>input_x = ''1.5'', input_y = ''abc'', input_z = ''2''\<rparr>"
  let ?good = "\<lparr>input_x = ''1.5'', input_y = ''-3'', input_z = ''2''\<rparr>"
  have k: "getSource 1 oneSourceEngine = Some ?src"
    by (simp add: getSource_def oneSourceEngine_sources)
  have u: "getSource 7 oneSourceEngine = None"
    by (simp add: getSource_def oneSourceEngine_sources)
  have n: "parseFloatTable ''abc'' = None" by (simp add: parseFloatTable_def)
  have px: "parseFloatTable (input_x ?good) = Some 1.5"
    and py: "parseFloatTable (input_y ?good) = Some (- 3)"
    and pz: "parseFloatTable (input_z ?good) = Some 2"
    and pb: "parseFloatTable (input_y ?bad) = None"
    by (simp_all add: parseFloatTable_def)
  note t1 = submitSourcePosition_atomic [of 1 oneSourceEngine ?src parseFloatTable ?bad 0 0 0]
  note t2 = submitSourcePosition_atomic [of 1 oneSourceEngine ?src parseFloatTable ?good "1.5" "- 3" 2]
  note t3 = submitSourcePosition_atomic [of 7 oneSourceEngine ?src parseFloatTable ?good 0 0 0]
  have a: "submitSourcePosition parseFloatTable 1 ?bad oneSourceEngine
     = (Some ''Please enter valid numbers for all coordinates'', oneSourceEngine)"
    using t1 k pb by blast
  have b: "map_option position (getSource 1 (snd (submitSourcePosition parseFloatTable 1
       ?good oneSourceEngine))) = Some (vec 1.5 (- 3) 2)"
    using t2 k px py pz by blast
  have c: "submitSourcePosition parseFloatTable 7 ?good oneSourceEngine = (None, oneSourceEngine)"
    using t3 u by blast
  have g: "map_option position (getSource 1 oneSourceEngine) = Some (vec 10 0 0)"
    using k by simp
  show ?thesis using n a b c u g by blast
qed

end
